theory Spec2Isabelle
  imports Main "HOL-Library.Char_ord" "HOL-Library.List_Lexorder"
begin

section \<open>Python values and exceptions\<close>

text \<open>
  The program (\<^verbatim>\<open>trigger.py\<close>) handles three sorts of values: command-line
  strings, objects decoded from JSON (API responses, cache files) and the dictionaries it
  builds for its caches.  All of them are values of \<open>json\<close>.  A Python \<^verbatim>\<open>dict\<close> is an
  association list read with \<open>map_of\<close>; \<^verbatim>\<open>None\<close> is \<open>JNull\<close>.  Text is \<open>string\<close>:
  a \<open>char\<close> is a code point below 256, and \<^verbatim>\<open>str.strip\<close>, \<^verbatim>\<open>str.lower\<close>,
  \<^verbatim>\<open>str.isdigit\<close>, \<^verbatim>\<open>int\<close> and the pattern \<^verbatim>\<open>\s\<close> are what Python has on every such
  code point.  Text with a code point from 256 on is not a value of the type.  Numbers
  with a fractional part do not occur in the model.
\<close>

datatype json =
    JNull
  | JBool bool
  | JInt int
  | JStr string
  | JArr "json list"
  | JObj "(string \<times> json) list"

datatype py_error =
    FileNotFoundError
  | PermissionError
  | JSONDecodeError
  | UnicodeDecodeError
  | IndexError
  | KeyError
  | ValueError
  | TypeError
  | AttributeError
  | ConnectionError
  | HTTPError nat
  | SystemExit nat

text \<open>Truth value testing: \<^verbatim>\<open>if not x\<close>, \<^verbatim>\<open>x or y\<close>.\<close>

fun truthy :: "json \<Rightarrow> bool" where
  "truthy JNull = False"
| "truthy (JBool b) = b"
| "truthy (JInt n) = (n \<noteq> 0)"
| "truthy (JStr s) = (s \<noteq> [])"
| "truthy (JArr xs) = (xs \<noteq> [])"
| "truthy (JObj kvs) = (kvs \<noteq> [])"

text \<open>\<^verbatim>\<open>xs[i]\<close> on a sequence: a negative index counts from the end.\<close>

definition py_index :: "'a list \<Rightarrow> int \<Rightarrow> py_error + 'a" where
  "py_index xs i =
     (if 0 \<le> i \<and> i < int (length xs) then Inr (xs ! nat i)
      else if i < 0 \<and> - int (length xs) \<le> i then Inr (xs ! nat (int (length xs) + i))
      else Inl IndexError)"

text \<open>\<^verbatim>\<open>v[i]\<close> with an integer \<open>i\<close>, for every kind of value \<open>v\<close>.  A dictionary
  decoded from JSON has string keys only, so an integer key is never found.\<close>

fun subscript_int :: "json \<Rightarrow> int \<Rightarrow> py_error + json" where
  "subscript_int (JArr xs) i = py_index xs i"
| "subscript_int (JStr s) i =
     (case py_index s i of Inl e \<Rightarrow> Inl e | Inr c \<Rightarrow> Inr (JStr [c]))"
| "subscript_int (JObj kvs) i = Inl KeyError"
| "subscript_int _ i = Inl TypeError"

text \<open>\<^verbatim>\<open>v[k]\<close> with a string \<open>k\<close>.\<close>

fun subscript_str :: "json \<Rightarrow> string \<Rightarrow> py_error + json" where
  "subscript_str (JObj kvs) k =
     (case map_of kvs k of None \<Rightarrow> Inl KeyError | Some v \<Rightarrow> Inr v)"
| "subscript_str _ k = Inl TypeError"

text \<open>\<^verbatim>\<open>v.get(k, default)\<close>; only a dictionary has the method.\<close>

fun py_get :: "json \<Rightarrow> string \<Rightarrow> json \<Rightarrow> py_error + json" where
  "py_get (JObj kvs) k d = Inr (case map_of kvs k of None \<Rightarrow> d | Some v \<Rightarrow> v)"
| "py_get _ k d = Inl AttributeError"

text \<open>\<^verbatim>\<open>v[:n]\<close>, \<^verbatim>\<open>v[-n:]\<close> and \<^verbatim>\<open>len(v)\<close>.\<close>

fun slice_to :: "json \<Rightarrow> nat \<Rightarrow> py_error + json" where
  "slice_to (JStr s) n = Inr (JStr (take n s))"
| "slice_to (JArr xs) n = Inr (JArr (take n xs))"
| "slice_to _ n = Inl TypeError"

fun slice_last :: "json \<Rightarrow> nat \<Rightarrow> py_error + json" where
  "slice_last (JStr s) n = Inr (JStr (drop (length s - n) s))"
| "slice_last (JArr xs) n = Inr (JArr (drop (length xs - n) xs))"
| "slice_last _ n = Inl TypeError"

fun py_len :: "json \<Rightarrow> py_error + nat" where
  "py_len (JStr s) = Inr (length s)"
| "py_len (JArr xs) = Inr (length xs)"
| "py_len (JObj kvs) = Inr (length kvs)"
| "py_len _ = Inl TypeError"

section \<open>The two cache files\<close>

text \<open>
  \<^verbatim>\<open>CACHE_FILE\<close> (\<^verbatim>\<open>~/.trigger_last_tasks.json\<close>) and \<^verbatim>\<open>RUNS_CACHE_FILE\<close>
  (\<^verbatim>\<open>~/.trigger_last_runs.json\<close>).  A file is missing, present but not openable for
  reading, present with text that \<^verbatim>\<open>json.load\<close> rejects, or present with a JSON
  document.  \<^verbatim>\<open>json.dump\<close> followed by \<^verbatim>\<open>json.load\<close> gives back the value that was
  written, so a written file is represented by that value.
\<close>

datatype file_state = Missing | Unreadable | Garbled | Stored json

text \<open>\<^verbatim>\<open>with open(path) as f: v = json.load(f)\<close>\<close>

fun load_json :: "file_state \<Rightarrow> py_error + json" where
  "load_json Missing = Inl FileNotFoundError"
| "load_json Unreadable = Inl PermissionError"
| "load_json Garbled = Inl JSONDecodeError"
| "load_json (Stored v) = Inr v"

subsection \<open>What the program does to its surroundings\<close>

text \<open>
  One \<open>world\<close> holds everything an invocation can read or change: the two cache
  files, the lines waiting on standard input, the lines printed, the prompts shown by
  \<^verbatim>\<open>input\<close>, the HTTP requests sent and the URLs handed to the browser.  A printed line
  is a \<open>message\<close>: one constructor for each \<^verbatim>\<open>print\<close> of the source, with the values
  its f-string interpolates.  A \<open>request\<close> stands for the call and its URL:
  \<open>Get_runs n\<close> is \<^verbatim>\<open>GET /api/v1/runs?page[size]=n\<close>, \<open>Get_schedules\<close> is
  \<^verbatim>\<open>GET /api/v1/schedules\<close>, \<open>Post_trigger t p\<close> is \<^verbatim>\<open>POST /api/v1/tasks/{t}/trigger\<close>
  with body \<^verbatim>\<open>{"payload": p}\<close>, \<open>Post_cancel r\<close> is \<^verbatim>\<open>POST /api/v2/runs/{r}/cancel\<close>.
  \<open>Run_url p r\<close> is \<^verbatim>\<open>https://cloud.trigger.dev/projects/v3/{p}/runs/{r}\<close>.
\<close>

datatype key_event = Line string | Ctrl_C

datatype request =
    Get_runs nat
  | Get_schedules
  | Post_trigger json json
  | Post_cancel json

datatype response = Unreachable | Response nat "json option"

datatype url = Run_url string json

datatype question = Trigger_q json | Cancel_q json

datatype icon = Check_mark | Hourglass | Cross_mark | Green_circle | Red_circle

datatype message =
    Usage
  | Open_manually url
  | No_tasks_folder
  | Tasks_matching_local string
  | Tasks_local
  | Tasks_matching string
  | Tasks
  | None_found
  | Local_task_line nat string
  | Task_line nat json icon
  | Scheduled_tasks
  | Schedule_line nat json icon json json
  | In_progress_runs
  | Recent_runs
  | Run_line nat json icon json
  | Cancelled
  | Cancelled_run json
  | Triggered json
  | Url_line url
  | Key_not_set
  | Usage_cancel
  | Run_runs_first
  | Usage_run
  | Run_list_first
  | Api_error nat

record world =
  cache_file :: file_state
  runs_cache_file :: file_state
  stdin :: "key_event list"
  stdout :: "message list"
  prompts :: "question list"
  requests :: "request list"
  opened :: "url list"

text \<open>
  What an invocation is given and cannot change: the two environment variables, the
  remote API (the response to each request), the \<^verbatim>\<open>./tasks\<close> folder, whether the
  browser command succeeds, and \<^verbatim>\<open>json.loads\<close> on a command-line argument (the
  library's parser, a parameter here: \<open>None\<close> when it raises).
\<close>

datatype dir = Dir "(string \<times> string option) list" "dir list"

record env =
  API_KEY :: "string option"
  PROJECT_ID :: "string option"
  http :: "request \<Rightarrow> response"
  tasks_dir :: "dir option"
  json_loads :: "string \<Rightarrow> json option"
  browser_ok :: bool

definition py_print :: "message \<Rightarrow> world \<Rightarrow> world" where
  "py_print m w = w\<lparr>stdout := stdout w @ [m]\<rparr>"

text \<open>\<^verbatim>\<open>with open(CACHE_FILE, "w") as f: json.dump(tasks, f)\<close>, and the same for
  \<^verbatim>\<open>RUNS_CACHE_FILE\<close>: mode \<^verbatim>\<open>"w"\<close> truncates the file.  The home directory is
  taken to be writable, so the write itself does not raise.\<close>

definition write_cache_file :: "json list \<Rightarrow> world \<Rightarrow> world" where
  "write_cache_file tasks w = w\<lparr>cache_file := Stored (JArr tasks)\<rparr>"

definition write_runs_cache_file :: "json list \<Rightarrow> world \<Rightarrow> world" where
  "write_runs_cache_file runs_cache w = w\<lparr>runs_cache_file := Stored (JArr runs_cache)\<rparr>"

definition andthen :: "py_error + 'a \<Rightarrow> ('a \<Rightarrow> py_error + 'b) \<Rightarrow> py_error + 'b" where
  "andthen r f = (case r of Inl e \<Rightarrow> Inl e | Inr v \<Rightarrow> f v)"

section \<open>Resolving an ordinal\<close>

text \<open>The \<^verbatim>\<open>try\<close> blocks of \<^verbatim>\<open>get_cached_task\<close> and \<^verbatim>\<open>get_cached_run\<close>:
  three exception classes become \<^verbatim>\<open>None\<close>, any other propagates.\<close>

definition except_not_found :: "py_error + json \<Rightarrow> py_error + json" where
  "except_not_found r =
     (case r of
        Inr v \<Rightarrow> Inr v
      | Inl e \<Rightarrow> if e \<in> {FileNotFoundError, IndexError, KeyError} then Inr JNull else Inl e)"

definition get_cached_run :: "int \<Rightarrow> world \<Rightarrow> py_error + json" where
  "get_cached_run number w =
     except_not_found
       (case load_json (runs_cache_file w) of
          Inl e \<Rightarrow> Inl e
        | Inr runs \<Rightarrow>
            (case subscript_int runs (number - 1) of
               Inl e \<Rightarrow> Inl e
             | Inr r \<Rightarrow> subscript_str r ''run_id''))"

definition get_cached_task :: "int \<Rightarrow> world \<Rightarrow> py_error + json" where
  "get_cached_task number w =
     except_not_found
       (case load_json (cache_file w) of
          Inl e \<Rightarrow> Inl e
        | Inr tasks \<Rightarrow>
            (case subscript_int tasks (number - 1) of
               Inl e \<Rightarrow> Inl e
             | Inr t \<Rightarrow> subscript_str t ''id''))"

section \<open>Strings\<close>

text \<open>The characters \<^verbatim>\<open>str.strip\<close> removes and \<^verbatim>\<open>\s\<close> matches (those with
  \<^verbatim>\<open>str.isspace\<close>): tab to carriage return, the four separators 28 to 31, the space,
  next line (133) and the no-break space (160).\<close>

definition is_space :: "char \<Rightarrow> bool" where
  "is_space c = (of_char c \<in> {9::nat, 10, 11, 12, 13, 28, 29, 30, 31, 32, 133, 160})"

definition strip :: "string \<Rightarrow> string" where
  "strip s = rev (dropWhile is_space (rev (dropWhile is_space s)))"

text \<open>\<^verbatim>\<open>str.lower\<close> changes the letters \<^verbatim>\<open>A\<close> to \<^verbatim>\<open>Z\<close> and the upper-case letters
  192 to 222 (all but the multiplication sign, 215); each moves up by 32.\<close>

definition lower_char :: "char \<Rightarrow> char" where
  "lower_char c =
     (if (CHR ''A'' \<le> c \<and> c \<le> CHR ''Z'') \<or> (CHR 0xC0 \<le> c \<and> c \<le> CHR 0xDE \<and> c \<noteq> CHR 0xD7)
      then char_of (of_char c + (32::nat)) else c)"

definition lower :: "string \<Rightarrow> string" where
  "lower s = map lower_char s"

text \<open>\<^verbatim>\<open>str.isdigit\<close> holds of a non-empty string of digits; besides \<^verbatim>\<open>0\<close> to \<^verbatim>\<open>9\<close>
  the superscripts two, three (178, 179) and one (185) are digits.\<close>

definition is_decimal :: "char \<Rightarrow> bool" where
  "is_decimal c = (CHR ''0'' \<le> c \<and> c \<le> CHR ''9'')"

definition isdigit :: "string \<Rightarrow> bool" where
  "isdigit s = (s \<noteq> [] \<and> list_all (\<lambda>c. is_decimal c \<or> of_char c \<in> {178::nat, 179, 185}) s)"

text \<open>\<^verbatim>\<open>int(s)\<close> for a string \<open>s\<close> with \<^verbatim>\<open>s.isdigit()\<close>, the only strings the program
  converts: \<^verbatim>\<open>ValueError\<close> when a character is not one of \<^verbatim>\<open>0\<close> to \<^verbatim>\<open>9\<close>, and when
  there are more than 4300 digits (the interpreter's default limit, leading zeros
  counted).\<close>

definition int_of_str :: "string \<Rightarrow> py_error + int" where
  "int_of_str s =
     (if s \<noteq> [] \<and> list_all is_decimal s \<and> length s \<le> 4300
      then Inr (foldl (\<lambda>n c. 10 * n + (int (of_char c) - 48)) 0 s)
      else Inl ValueError)"

definition startswith :: "string \<Rightarrow> string \<Rightarrow> bool" where
  "startswith s p = (take (length p) s = p)"

definition endswith :: "string \<Rightarrow> string \<Rightarrow> bool" where
  "endswith s p = (drop (length s - length p) s = p)"

text \<open>\<^verbatim>\<open>sub in s\<close> on strings.\<close>

fun str_in :: "string \<Rightarrow> string \<Rightarrow> bool" where
  "str_in sub [] = (sub = [])"
| "str_in sub (c # s) = (startswith (c # s) sub \<or> str_in sub s)"

text \<open>Truth value of an optional string (\<^verbatim>\<open>None\<close> or a \<^verbatim>\<open>str\<close>).\<close>

fun str_truthy :: "string option \<Rightarrow> bool" where
  "str_truthy None = False"
| "str_truthy (Some s) = (s \<noteq> [])"

section \<open>Confirmation and browser\<close>

definition open_url :: "env \<Rightarrow> url \<Rightarrow> world \<Rightarrow> world" where
  "open_url env u w =
     (if browser_ok env then w\<lparr>opened := opened w @ [u]\<rparr> else py_print (Open_manually u) w)"

definition affirmative :: "string \<Rightarrow> bool" where
  "affirmative response = (lower (strip response) \<in> {''y'', ''yes''})"

text \<open>\<^verbatim>\<open>input\<close> shows the prompt and reads one line; at end of input it raises
  \<^verbatim>\<open>EOFError\<close>, on an interrupt \<^verbatim>\<open>KeyboardInterrupt\<close>, and \<^verbatim>\<open>confirm\<close> answers
  \<^verbatim>\<open>False\<close> to both.\<close>

definition confirm :: "question \<Rightarrow> world \<Rightarrow> bool \<times> world" where
  "confirm q w =
     (case stdin w of
        [] \<Rightarrow> (False, w\<lparr>prompts := prompts w @ [q]\<rparr>)
      | Ctrl_C # rest \<Rightarrow> (False, w\<lparr>prompts := prompts w @ [q], stdin := rest\<rparr>)
      | Line response # rest \<Rightarrow>
          (affirmative response, w\<lparr>prompts := prompts w @ [q], stdin := rest\<rparr>))"

section \<open>Scanning the local tasks folder\<close>

text \<open>
  The pattern \<^verbatim>\<open>id:\s*['"]([^'"]+)['"]\<close>.  \<open>match_id s\<close> matches it at the start of
  \<open>s\<close> and gives the group and the text after the match.  Each repetition is followed
  by a character outside its class, so the greedy match is the only one.
\<close>

definition is_quote :: "char \<Rightarrow> bool" where
  "is_quote c = (c = CHR 0x27 \<or> c = CHR 0x22)"

definition match_id :: "string \<Rightarrow> (string \<times> string) option" where
  "match_id s =
     (if startswith s ''id:'' then
        (case dropWhile is_space (drop 3 s) of
           [] \<Rightarrow> None
         | q # r \<Rightarrow>
             if is_quote q \<and> takeWhile (\<lambda>c. \<not> is_quote c) r \<noteq> []
                \<and> dropWhile (\<lambda>c. \<not> is_quote c) r \<noteq> []
             then Some (takeWhile (\<lambda>c. \<not> is_quote c) r, tl (dropWhile (\<lambda>c. \<not> is_quote c) r))
             else None)
      else None)"

lemma match_id_shorter: "match_id s = Some (tid, rest) \<Longrightarrow> length rest < length s"
proof -
  assume m: "match_id s = Some (tid, rest)"
  then obtain q r where qr: "dropWhile is_space (drop 3 s) = q # r"
    and rest: "rest = tl (dropWhile (\<lambda>c. \<not> is_quote c) r)"
    and ne: "dropWhile (\<lambda>c. \<not> is_quote c) r \<noteq> []"
    by (auto simp: match_id_def split: if_splits list.splits)
  have "length rest < length (dropWhile (\<lambda>c. \<not> is_quote c) r)"
    using rest ne by (cases "dropWhile (\<lambda>c. \<not> is_quote c) r") auto
  also have "\<dots> \<le> length r" by (rule length_dropWhile_le)
  also have "\<dots> < length (dropWhile is_space (drop 3 s))" using qr by simp
  also have "\<dots> \<le> length (drop 3 s)" by (rule length_dropWhile_le)
  also have "\<dots> \<le> length s" by simp
  finally show ?thesis .
qed

text \<open>\<^verbatim>\<open>[m.group(1) for m in id_pattern.finditer(content)]\<close>: matches from left to
  right, the search going on where the last match ended.\<close>

function finditer :: "string \<Rightarrow> string list" where
  "finditer s =
     (if s = [] then []
      else (case match_id s of
              Some (tid, rest) \<Rightarrow> tid # finditer rest
            | None \<Rightarrow> finditer (tl s)))"
  by pat_completeness auto
termination
  by (relation "measure length") (auto simp: match_id_shorter)

declare finditer.simps [simp del]

text \<open>\<^verbatim>\<open>os.walk\<close>: a directory's own files, then its subdirectories in turn.  A file
  is its name and its text, \<open>None\<close> when it does not decode as UTF-8.\<close>

fun walk :: "dir \<Rightarrow> (string \<times> string option) list" where
  "walk (Dir files subdirs) = files @ concat (map walk subdirs)"

definition search_misses :: "string option \<Rightarrow> string \<Rightarrow> bool" where
  "search_misses search tid = (str_truthy search \<and> \<not> str_in (lower (the search)) (lower tid))"

fun scan_matches :: "string option \<Rightarrow> string list \<Rightarrow> string list \<Rightarrow> string list" where
  "scan_matches search [] task_ids = task_ids"
| "scan_matches search (tid # tids) task_ids =
     (if startswith tid ''$'' then scan_matches search tids task_ids
      else if search_misses search tid then scan_matches search tids task_ids
      else if tid \<notin> set task_ids then scan_matches search tids (task_ids @ [tid])
      else scan_matches search tids task_ids)"

fun scan_files ::
  "string option \<Rightarrow> (string \<times> string option) list \<Rightarrow> string list \<Rightarrow> py_error + string list"
where
  "scan_files search [] task_ids = Inr task_ids"
| "scan_files search ((fname, content) # fs) task_ids =
     (if endswith fname ''.ts'' then
        (case content of
           None \<Rightarrow> Inl UnicodeDecodeError
         | Some text \<Rightarrow> scan_files search fs (scan_matches search (finditer text) task_ids))
      else scan_files search fs task_ids)"

definition local_task_lines :: "string list \<Rightarrow> message list" where
  "local_task_lines tids = map (\<lambda>(i, tid). Local_task_line i tid) (zip [1..<Suc (length tids)] tids)"

definition list_tasks_local :: "env \<Rightarrow> string option \<Rightarrow> world \<Rightarrow> (py_error + json list) \<times> world" where
  "list_tasks_local env search w =
     (case tasks_dir env of
        None \<Rightarrow> (Inr [], py_print No_tasks_folder w)
      | Some d \<Rightarrow>
          (case scan_files search (walk d) [] of
             Inl e \<Rightarrow> (Inl e, w)
           | Inr task_ids \<Rightarrow>
               (let tasks = map (\<lambda>tid. JObj [(''id'', JStr tid)]) (sort task_ids);
                    w1 = write_cache_file tasks w;
                    w2 = py_print (if str_truthy search then Tasks_matching_local (the search)
                                   else Tasks_local) w1
                in if tasks = [] then (Inr tasks, py_print None_found w2)
                   else (Inr tasks, w2\<lparr>stdout := stdout w2 @ local_task_lines (sort task_ids)\<rparr>))))"

section \<open>Remote listings\<close>

text \<open>\<^verbatim>\<open>requests.get\<close> or \<^verbatim>\<open>requests.post\<close>: the request goes out and the API answers.\<close>

definition send :: "env \<Rightarrow> request \<Rightarrow> world \<Rightarrow> response \<times> world" where
  "send env req w = (http env req, w\<lparr>requests := requests w @ [req]\<rparr>)"

text \<open>\<^verbatim>\<open>response.raise_for_status()\<close>; a request that got no response has raised
  before.  The result is the body, \<open>None\<close> when it is not JSON.\<close>

fun raise_for_status :: "response \<Rightarrow> py_error + json option" where
  "raise_for_status Unreachable = Inl ConnectionError"
| "raise_for_status (Response status body) =
     (if 400 \<le> status \<and> status < 600 then Inl (HTTPError status) else Inr body)"

text \<open>\<^verbatim>\<open>response.json()\<close>\<close>

fun response_json :: "json option \<Rightarrow> py_error + json" where
  "response_json None = Inl JSONDecodeError"
| "response_json (Some v) = Inr v"

text \<open>\<^verbatim>\<open>response.raise_for_status(); data = response.json().get("data", [])\<close>\<close>

definition response_data :: "response \<Rightarrow> py_error + json" where
  "response_data resp =
     andthen (raise_for_status resp) (\<lambda>body.
     andthen (response_json body) (\<lambda>v. py_get v ''data'' (JArr [])))"

text \<open>\<^verbatim>\<open>for x in v\<close>: a list gives its elements, a string its characters, a
  dictionary its keys; nothing else is iterable.\<close>

fun py_iter :: "json \<Rightarrow> py_error + json list" where
  "py_iter (JArr xs) = Inr xs"
| "py_iter (JStr s) = Inr (map (\<lambda>c. JStr [c]) s)"
| "py_iter (JObj kvs) = Inr (map (\<lambda>kv. JStr (fst kv)) kvs)"
| "py_iter _ = Inl TypeError"

text \<open>The dictionary \<^verbatim>\<open>seen\<close> of \<^verbatim>\<open>list_tasks\<close> is the list of its keys.  A key must
  be hashable; Python compares \<^verbatim>\<open>True\<close> and \<^verbatim>\<open>1\<close> equal.\<close>

fun hashable :: "json \<Rightarrow> bool" where
  "hashable (JArr xs) = False"
| "hashable (JObj kvs) = False"
| "hashable _ = True"

fun num_val :: "json \<Rightarrow> int option" where
  "num_val (JBool b) = Some (if b then 1 else 0)"
| "num_val (JInt n) = Some n"
| "num_val _ = None"

definition key_eq :: "json \<Rightarrow> json \<Rightarrow> bool" where
  "key_eq a b =
     (case (num_val a, num_val b) of
        (Some m, Some n) \<Rightarrow> m = n
      | (None, None) \<Rightarrow> a = b
      | _ \<Rightarrow> False)"

definition key_in :: "json \<Rightarrow> json list \<Rightarrow> py_error + bool" where
  "key_in k seen = (if hashable k then Inr (list_ex (key_eq k) seen) else Inl TypeError)"

text \<open>\<^verbatim>\<open>search and search.lower() not in task_id.lower()\<close>\<close>

definition search_skips :: "string option \<Rightarrow> json \<Rightarrow> py_error + bool" where
  "search_skips search task_id =
     (if str_truthy search then
        (case task_id of
           JStr t \<Rightarrow> Inr (\<not> str_in (lower (the search)) (lower t))
         | _ \<Rightarrow> Inl AttributeError)
      else Inr False)"

text \<open>The loop of \<^verbatim>\<open>list_tasks\<close> over the fetched runs.\<close>

fun tasks_loop ::
  "string option \<Rightarrow> json list \<Rightarrow> json list \<Rightarrow> json list \<Rightarrow> py_error + json list"
where
  "tasks_loop search [] seen tasks = Inr tasks"
| "tasks_loop search (run # runs) seen tasks =
     (case py_get run ''taskIdentifier'' JNull of
        Inl e \<Rightarrow> Inl e
      | Inr task_id \<Rightarrow>
          if \<not> truthy task_id then tasks_loop search runs seen tasks
          else (case key_in task_id seen of
            Inl e \<Rightarrow> Inl e
          | Inr True \<Rightarrow> tasks_loop search runs seen tasks
          | Inr False \<Rightarrow>
              (case search_skips search task_id of
                 Inl e \<Rightarrow> Inl e
               | Inr True \<Rightarrow> tasks_loop search runs seen tasks
               | Inr False \<Rightarrow>
                   (case py_get run ''status'' JNull of
                      Inl e \<Rightarrow> Inl e
                    | Inr status \<Rightarrow>
                        (case andthen (py_get run ''updatedAt'' (JStr [])) (\<lambda>u. slice_to u 10) of
                           Inl e \<Rightarrow> Inl e
                         | Inr updated \<Rightarrow>
                             tasks_loop search runs (seen @ [task_id])
                               (tasks @ [JObj [(''id'', task_id), (''status'', status),
                                               (''updated'', updated)]]))))))"

text \<open>The numbered lines of \<^verbatim>\<open>list_tasks\<close>.\<close>

fun show_tasks :: "nat \<Rightarrow> json list \<Rightarrow> world \<Rightarrow> (py_error + unit) \<times> world" where
  "show_tasks i [] w = (Inr (), w)"
| "show_tasks i (t # ts) w =
     (case subscript_str t ''status'' of
        Inl e \<Rightarrow> (Inl e, w)
      | Inr status \<Rightarrow>
          (case subscript_str t ''id'' of
             Inl e \<Rightarrow> (Inl e, w)
           | Inr tid \<Rightarrow>
               show_tasks (Suc i) ts
                 (py_print (Task_line i tid
                    (if status = JStr ''COMPLETED'' then Check_mark else Hourglass)) w)))"

definition list_tasks :: "env \<Rightarrow> string option \<Rightarrow> world \<Rightarrow> (py_error + json list) \<times> world" where
  "list_tasks env search w0 =
     (case send env (Get_runs 100) w0 of (resp, w) \<Rightarrow>
        (case andthen (response_data resp) py_iter of
           Inl e \<Rightarrow> (Inl e, w)
         | Inr runs \<Rightarrow>
             (case tasks_loop search runs [] [] of
                Inl e \<Rightarrow> (Inl e, w)
              | Inr tasks \<Rightarrow>
                  (let w1 = write_cache_file tasks w;
                       w2 = py_print (if str_truthy search then Tasks_matching (the search)
                                      else Tasks) w1
                   in if tasks = [] then (Inr tasks, py_print None_found w2)
                      else (case show_tasks 1 tasks w2 of
                              (Inl e, w3) \<Rightarrow> (Inl e, w3)
                            | (Inr u, w3) \<Rightarrow> (Inr tasks, w3))))))"

text \<open>\<^verbatim>\<open>x.replace("T", " ")\<close>; only a string has the method.\<close>

fun replace_T :: "json \<Rightarrow> py_error + json" where
  "replace_T (JStr s) = Inr (JStr (map (\<lambda>c. if c = CHR ''T'' then CHR '' '' else c) s))"
| "replace_T _ = Inl AttributeError"

text \<open>One round of the loop of \<^verbatim>\<open>list_schedules\<close>: the cache entry and the line.\<close>

definition schedule_row :: "json \<Rightarrow> py_error + (json \<times> (nat \<Rightarrow> message))" where
  "schedule_row s =
     andthen (py_get s ''task'' JNull) (\<lambda>task_id.
     andthen (py_get s ''generator'' (JObj [])) (\<lambda>generator.
     andthen (py_get generator ''expression'' (JStr [])) (\<lambda>cron.
     andthen (py_get s ''active'' JNull) (\<lambda>active.
     andthen (py_get s ''nextRun'' (JStr [])) (\<lambda>n.
     andthen (slice_to n 16) (\<lambda>n16.
     andthen (replace_T n16) (\<lambda>next_run.
     andthen (py_get s ''id'' JNull) (\<lambda>sid.
       Inr (JObj [(''id'', task_id), (''schedule_id'', sid)],
            \<lambda>i. Schedule_line i task_id (if truthy active then Green_circle else Red_circle)
                   cron next_run)))))))))"

fun schedules_loop ::
  "nat \<Rightarrow> json list \<Rightarrow> json list \<Rightarrow> world \<Rightarrow> (py_error + json list) \<times> world"
where
  "schedules_loop i [] tasks w = (Inr tasks, w)"
| "schedules_loop i (s # ss) tasks w =
     (case schedule_row s of
        Inl e \<Rightarrow> (Inl e, w)
      | Inr (entry, line) \<Rightarrow> schedules_loop (Suc i) ss (tasks @ [entry]) (py_print (line i) w))"

definition list_schedules :: "env \<Rightarrow> world \<Rightarrow> (py_error + json) \<times> world" where
  "list_schedules env w0 =
     (case send env Get_schedules w0 of (resp, w) \<Rightarrow>
        (case response_data resp of
           Inl e \<Rightarrow> (Inl e, w)
         | Inr schedules \<Rightarrow>
             (case py_iter schedules of
                Inl e \<Rightarrow> (Inl e, py_print Scheduled_tasks w)
              | Inr ss \<Rightarrow>
                  (case schedules_loop 1 ss [] (py_print Scheduled_tasks w) of
                     (Inl e, w1) \<Rightarrow> (Inl e, w1)
                   | (Inr tasks, w1) \<Rightarrow> (Inr schedules, write_cache_file tasks w1)))))"

text \<open>The two comprehensions of \<^verbatim>\<open>list_runs\<close>: the filter of \<^verbatim>\<open>--active\<close> and the
  entries of the run cache.\<close>

fun active_runs :: "json list \<Rightarrow> py_error + json list" where
  "active_runs [] = Inr []"
| "active_runs (r # rs) =
     (case py_get r ''status'' JNull of
        Inl e \<Rightarrow> Inl e
      | Inr status \<Rightarrow>
          (case active_runs rs of
             Inl e \<Rightarrow> Inl e
           | Inr kept \<Rightarrow>
               Inr (if status \<notin> {JStr ''COMPLETED'', JStr ''FAILED'', JStr ''CANCELED''}
                    then r # kept else kept)))"

fun runs_cache_entries :: "json list \<Rightarrow> py_error + json list" where
  "runs_cache_entries [] = Inr []"
| "runs_cache_entries (r # rs) =
     (case py_get r ''id'' JNull of
        Inl e \<Rightarrow> Inl e
      | Inr run_id \<Rightarrow>
          (case py_get r ''taskIdentifier'' JNull of
             Inl e \<Rightarrow> Inl e
           | Inr task_id \<Rightarrow>
               (case py_get r ''status'' JNull of
                  Inl e \<Rightarrow> Inl e
                | Inr status \<Rightarrow>
                    (case runs_cache_entries rs of
                       Inl e \<Rightarrow> Inl e
                     | Inr rest \<Rightarrow>
                         Inr (JObj [(''run_id'', run_id), (''task_id'', task_id),
                                    (''status'', status)] # rest)))))"

text \<open>One numbered line of \<^verbatim>\<open>list_runs\<close>.\<close>

definition run_row :: "json \<Rightarrow> py_error + (nat \<Rightarrow> message)" where
  "run_row r =
     andthen (py_get r ''id'' (JStr [])) (\<lambda>run_id.
     andthen (py_get r ''taskIdentifier'' (JStr [])) (\<lambda>task_id.
     andthen (py_get r ''status'' (JStr [])) (\<lambda>status.
     andthen (py_len run_id) (\<lambda>n.
     andthen (if n > 8 then slice_last run_id 8 else Inr run_id) (\<lambda>short_id.
       Inr (\<lambda>i. Run_line i task_id
                   (if status = JStr ''COMPLETED'' then Check_mark
                    else if status \<in> {JStr ''FAILED'', JStr ''CANCELED''} then Cross_mark
                    else Hourglass)
                   short_id))))))"

fun show_runs :: "nat \<Rightarrow> json list \<Rightarrow> world \<Rightarrow> (py_error + unit) \<times> world" where
  "show_runs i [] w = (Inr (), w)"
| "show_runs i (r # rs) w =
     (case run_row r of
        Inl e \<Rightarrow> (Inl e, w)
      | Inr line \<Rightarrow> show_runs (Suc i) rs (py_print (line i) w))"

definition list_runs :: "env \<Rightarrow> bool \<Rightarrow> world \<Rightarrow> (py_error + json) \<times> world" where
  "list_runs env active_only w0 =
     (case send env (Get_runs 50) w0 of (resp, w) \<Rightarrow>
        (case andthen (response_data resp) (\<lambda>data.
                if active_only
                then andthen (py_iter data) (\<lambda>rs. andthen (active_runs rs) (\<lambda>kept. Inr (JArr kept)))
                else Inr data) of
           Inl e \<Rightarrow> (Inl e, w)
         | Inr runs \<Rightarrow>
             (case andthen (py_iter runs) runs_cache_entries of
                Inl e \<Rightarrow> (Inl e, w)
              | Inr runs_cache \<Rightarrow>
                  (let w1 = write_runs_cache_file runs_cache w;
                       w2 = py_print (if active_only then In_progress_runs else Recent_runs) w1
                   in if \<not> truthy runs then (Inr runs, py_print None_found w2)
                      else (case py_iter runs of
                              Inl e \<Rightarrow> (Inl e, w2)
                            | Inr rs \<Rightarrow>
                                (case show_runs 1 rs w2 of
                                   (Inl e, w3) \<Rightarrow> (Inl e, w3)
                                 | (Inr u, w3) \<Rightarrow> (Inr runs, w3)))))))"

section \<open>Cancelling and triggering\<close>

definition cancel_run :: "env \<Rightarrow> json \<Rightarrow> bool \<Rightarrow> world \<Rightarrow> (py_error + unit) \<times> world" where
  "cancel_run env run_id skip_confirm w0 =
     (case (if skip_confirm then (True, w0) else confirm (Cancel_q run_id) w0) of (go, w) \<Rightarrow>
        if \<not> go then (Inr (), py_print Cancelled w)
        else
          (case send env (Post_cancel run_id) w of (resp, w1) \<Rightarrow>
             (case raise_for_status resp of
                Inl e \<Rightarrow> (Inl e, w1)
              | Inr body \<Rightarrow>
                  (let w2 = py_print (Cancelled_run run_id) w1
                   in (Inr (),
                       if str_truthy (PROJECT_ID env)
                       then py_print (Url_line (Run_url (the (PROJECT_ID env)) run_id)) w2
                       else w2)))))"

definition run_task ::
  "env \<Rightarrow> json \<Rightarrow> json \<Rightarrow> bool \<Rightarrow> bool \<Rightarrow> world \<Rightarrow> (py_error + unit) \<times> world"
where
  "run_task env task_id payload auto_open skip_confirm w0 =
     (case (if skip_confirm then (True, w0) else confirm (Trigger_q task_id) w0) of (go, w) \<Rightarrow>
        if \<not> go then (Inr (), py_print Cancelled w)
        else
          (case send env (Post_trigger task_id (if truthy payload then payload else JObj [])) w
           of (resp, w1) \<Rightarrow>
             (case andthen (raise_for_status resp) (\<lambda>body.
                   andthen (response_json body) (\<lambda>v. py_get v ''id'' JNull)) of
                Inl e \<Rightarrow> (Inl e, w1)
              | Inr run_id \<Rightarrow>
                  (let w2 = py_print (Triggered task_id) w1
                   in if str_truthy (PROJECT_ID env) \<and> truthy run_id
                      then (let run_url = Run_url (the (PROJECT_ID env)) run_id;
                                w3 = py_print (Url_line run_url) w2
                            in (Inr (), if auto_open then open_url env run_url w3 else w3))
                      else (Inr (), w2)))))"

section \<open>The dispatcher\<close>

text \<open>\<^verbatim>\<open>p_idx = args.index("-p"); payload = json.loads(args[p_idx + 1])\<close>\<close>

definition arg_payload :: "env \<Rightarrow> string list \<Rightarrow> py_error + json" where
  "arg_payload env args =
     andthen (py_index args (int (length (takeWhile (\<lambda>a. a \<noteq> ''-p'') args)) + 1)) (\<lambda>text.
       case json_loads env text of None \<Rightarrow> Inl JSONDecodeError | Some v \<Rightarrow> Inr v)"

text \<open>A call whose result \<^verbatim>\<open>main\<close> does not use.\<close>

definition discard :: "(py_error + 'a) \<times> world \<Rightarrow> (py_error + unit) \<times> world" where
  "discard r = (case r of (Inl e, w) \<Rightarrow> (Inl e, w) | (Inr v, w) \<Rightarrow> (Inr (), w))"

definition main :: "env \<Rightarrow> string list \<Rightarrow> world \<Rightarrow> (py_error + unit) \<times> world" where
  "main env argv w =
     (if ''-h'' \<in> set argv \<or> ''--help'' \<in> set argv then (Inr (), py_print Usage w)
      else if \<not> str_truthy (API_KEY env) then (Inl (SystemExit 1), py_print Key_not_set w)
      else
        (let skip_confirm = (''-y'' \<in> set argv);
             auto_open = (''--open'' \<in> set argv);
             args = filter (\<lambda>a. a \<notin> {''-y'', ''--open''}) argv
         in
           if args = [] then discard (list_tasks env None w)
           else if hd args = ''list'' then
             (if ''--local'' \<in> set args then
                (let args2 = filter (\<lambda>a. a \<noteq> ''--local'') args
                 in discard (list_tasks_local env
                               (if length args2 > 1 then Some (args2 ! 1) else None) w))
              else discard (list_tasks env (if length args > 1 then Some (args ! 1) else None) w))
           else if hd args = ''schedules'' then discard (list_schedules env w)
           else if hd args = ''runs'' then discard (list_runs env (''--active'' \<in> set args) w)
           else if hd args = ''cancel'' then
             (if length args < 2 then (Inl (SystemExit 1), py_print Usage_cancel w)
              else if isdigit (args ! 1) then
                (case andthen (int_of_str (args ! 1)) (\<lambda>number. get_cached_run number w) of
                   Inl e \<Rightarrow> (Inl e, w)
                 | Inr run_id \<Rightarrow>
                     if \<not> truthy run_id then (Inl (SystemExit 1), py_print Run_runs_first w)
                     else cancel_run env run_id skip_confirm w)
              else cancel_run env (JStr (args ! 1)) skip_confirm w)
           else if hd args = ''run'' then
             (if length args < 2 then (Inl (SystemExit 1), py_print Usage_run w)
              else
                (case (if ''-p'' \<in> set args then arg_payload env args else Inr JNull) of
                   Inl e \<Rightarrow> (Inl e, w)
                 | Inr payload \<Rightarrow> run_task env (JStr (args ! 1)) payload auto_open skip_confirm w))
           else if isdigit (hd args) then
             (case andthen (int_of_str (hd args)) (\<lambda>number. get_cached_task number w) of
                Inl e \<Rightarrow> (Inl e, w)
              | Inr task_id \<Rightarrow>
                  if \<not> truthy task_id then (Inl (SystemExit 1), py_print Run_list_first w)
                  else run_task env task_id JNull auto_open skip_confirm w)
           else run_task env (JStr (hd args)) JNull auto_open skip_confirm w))"

text \<open>
  The \<^verbatim>\<open>__main__\<close> block: the exit status and the world the process leaves.
  \<^verbatim>\<open>HTTPError\<close> is reported and ends with status 1; \<^verbatim>\<open>sys.exit(n)\<close> ends with
  status \<open>n\<close>; any other exception is caught by nobody and ends the process with
  status 1 (its traceback goes to standard error).  The handler of
  \<^verbatim>\<open>KeyboardInterrupt\<close> is for an interrupt outside \<^verbatim>\<open>input\<close>, which a \<open>world\<close> does
  not have.
\<close>

definition program :: "env \<Rightarrow> string list \<Rightarrow> world \<Rightarrow> nat \<times> world" where
  "program env argv w =
     (case main env argv w of
        (Inr u, w1) \<Rightarrow> (0, w1)
      | (Inl (HTTPError status), w1) \<Rightarrow> (1, py_print (Api_error status) w1)
      | (Inl (SystemExit code), w1) \<Rightarrow> (code, w1)
      | (Inl e, w1) \<Rightarrow> (1, w1))"


section \<open>Example surroundings\<close>

text \<open>A world before the program has ever run, and small caches to evaluate on.\<close>

definition blank :: world where
  "blank = \<lparr>cache_file = Missing, runs_cache_file = Missing, stdin = [], stdout = [],
            prompts = [], requests = [], opened = []\<rparr>"

definition two_tasks :: "json list" where
  "two_tasks = [JObj [(''id'', JStr ''first'')], JObj [(''id'', JStr ''last'')]]"

definition two_runs :: "json list" where
  "two_runs =
     [JObj [(''run_id'', JStr ''run_1''), (''task_id'', JStr ''first''), (''status'', JStr ''EXECUTING'')],
      JObj [(''run_id'', JStr ''run_2''), (''task_id'', JStr ''last''), (''status'', JStr ''EXECUTING'')]]"

definition other_tasks :: "json list" where
  "other_tasks = [JObj [(''id'', JStr ''other'')]]"

definition other_runs :: "json list" where
  "other_runs = [JObj [(''run_id'', JStr ''run_9''), (''task_id'', JStr ''other''), (''status'', JStr ''QUEUED'')]]"

section \<open>Resolving: what the two lookups return\<close>

lemma py_index_mem: "py_index xs i = Inr x \<Longrightarrow> x \<in> set xs"
  by (auto simp: py_index_def split: if_splits)

lemma py_index_minus_one: "xs \<noteq> [] \<Longrightarrow> py_index xs (- 1) = Inr (last xs)"
  by (cases xs rule: rev_cases) (auto simp: py_index_def nat_add_distrib)

text \<open>Inside the list, the lookup reads the identifier of the entry at position
  \<open>i - 1\<close>; an entry without the key gives \<^verbatim>\<open>None\<close>.\<close>

lemma resolve_task_in_range:
  assumes "cache_file w = Stored (JArr tasks)" "1 \<le> i" "i \<le> int (length tasks)"
  shows "get_cached_task i w = except_not_found (subscript_str (tasks ! nat (i - 1)) ''id'')"
  using assms
  by (simp add: get_cached_task_def py_index_def except_not_found_def split: sum.splits)

lemma resolve_run_in_range:
  assumes "runs_cache_file w = Stored (JArr runs)" "1 \<le> i" "i \<le> int (length runs)"
  shows "get_cached_run i w = except_not_found (subscript_str (runs ! nat (i - 1)) ''run_id'')"
  using assms
  by (simp add: get_cached_run_def py_index_def except_not_found_def split: sum.splits)

text \<open>Ordinal 0 asks for index \<open>-1\<close>, which Python reads as the last element.\<close>

lemma resolve_task_zero:
  assumes "cache_file w = Stored (JArr tasks)" "tasks \<noteq> []"
  shows "get_cached_task 0 w = except_not_found (subscript_str (last tasks) ''id'')"
  using assms by (simp add: get_cached_task_def py_index_minus_one)

lemma resolve_run_zero:
  assumes "runs_cache_file w = Stored (JArr runs)" "runs \<noteq> []"
  shows "get_cached_run 0 w = except_not_found (subscript_str (last runs) ''run_id'')"
  using assms by (simp add: get_cached_run_def py_index_minus_one)

text \<open>
  C1.  The claim: after a list of \<open>N\<close> entries is saved, \<open>resolve(i)\<close> for
  \<open>1 \<le> i \<le> N\<close> is the entry at position \<open>i - 1\<close>, and \<open>resolve(0)\<close>,
  \<open>resolve(N + 1)\<close> and a resolve on an empty or missing cache are \<^verbatim>\<open>None\<close>.
  The code departs from it at ordinal 0: with two entries saved, \<^verbatim>\<open>get_cached_task(0)\<close>
  and \<^verbatim>\<open>get_cached_run(0)\<close> return the identifier of the last entry instead of
  \<^verbatim>\<open>None\<close>.
\<close>

theorem resolve_zero_returns_last_entry:
  "get_cached_task 0 (write_cache_file two_tasks w) = Inr (JStr ''last'')
   \<and> get_cached_run 0 (write_runs_cache_file two_runs w) = Inr (JStr ''run_2'')"
  by (simp add: get_cached_task_def get_cached_run_def write_cache_file_def
      write_runs_cache_file_def two_tasks_def two_runs_def py_index_def except_not_found_def)

text \<open>
  C4 (as amended).  For every ordinal, the lookup returns \<^verbatim>\<open>None\<close> without raising
  when the cache file is missing, when the stored list is empty and when the ordinal is
  greater than the number of stored entries.  When the file is there but its content
  does not deserialize, \<^verbatim>\<open>JSONDecodeError\<close> reaches the caller, and when it cannot be
  opened, \<^verbatim>\<open>PermissionError\<close> does.
\<close>

theorem resolve_soft_and_hard_failures:
  "(cache_file w = Missing \<longrightarrow> get_cached_task number w = Inr JNull)
   \<and> (cache_file w = Stored (JArr tasks) \<and> (int (length tasks) < number \<or> tasks = [])
        \<longrightarrow> get_cached_task number w = Inr JNull)
   \<and> (cache_file w = Garbled \<longrightarrow> get_cached_task number w = Inl JSONDecodeError)
   \<and> (cache_file w = Unreadable \<longrightarrow> get_cached_task number w = Inl PermissionError)
   \<and> (runs_cache_file w = Missing \<longrightarrow> get_cached_run number w = Inr JNull)
   \<and> (runs_cache_file w = Stored (JArr runs) \<and> (int (length runs) < number \<or> runs = [])
        \<longrightarrow> get_cached_run number w = Inr JNull)
   \<and> (runs_cache_file w = Garbled \<longrightarrow> get_cached_run number w = Inl JSONDecodeError)
   \<and> (runs_cache_file w = Unreadable \<longrightarrow> get_cached_run number w = Inl PermissionError)"
  by (auto simp: get_cached_task_def get_cached_run_def except_not_found_def py_index_def)

text \<open>The amended C4 at concrete worlds: a missing file and ordinal 3 beyond two entries
  give \<^verbatim>\<open>None\<close>; a garbled task cache and an unreadable run cache raise.\<close>

theorem resolve_soft_and_hard_failures_witness:
  "cache_file blank = Missing \<and> get_cached_task 1 blank = Inr JNull
   \<and> runs_cache_file blank = Missing \<and> get_cached_run 1 blank = Inr JNull
   \<and> get_cached_task 3 (write_cache_file two_tasks blank) = Inr JNull
   \<and> get_cached_run 3 (write_runs_cache_file two_runs blank) = Inr JNull
   \<and> get_cached_task 1 (blank\<lparr>cache_file := Garbled\<rparr>) = Inl JSONDecodeError
   \<and> get_cached_run 1 (blank\<lparr>runs_cache_file := Unreadable\<rparr>) = Inl PermissionError"
  using resolve_soft_and_hard_failures [of blank 1 "[]" "[]"]
    resolve_soft_and_hard_failures
      [of "write_runs_cache_file two_runs (write_cache_file two_tasks blank)" 3 two_tasks two_runs]
    resolve_soft_and_hard_failures
      [of "blank\<lparr>cache_file := Garbled, runs_cache_file := Unreadable\<rparr>" 1 "[]" "[]"]
  by (simp add: blank_def write_cache_file_def write_runs_cache_file_def two_tasks_def
      two_runs_def get_cached_task_def get_cached_run_def)

text \<open>C4 as the claim states it fails: a task cache whose content does not
  deserialize makes \<^verbatim>\<open>get_cached_task(1)\<close> raise \<^verbatim>\<open>JSONDecodeError\<close>, and a run cache
  that cannot be opened makes \<^verbatim>\<open>get_cached_run(1)\<close> raise \<^verbatim>\<open>PermissionError\<close>.\<close>

theorem resolve_unreadable_cache_raises:
  "get_cached_task 1
     \<lparr>cache_file = Garbled, runs_cache_file = Unreadable, stdin = [], stdout = [],
      prompts = [], requests = [], opened = []\<rparr> = Inl JSONDecodeError
   \<and> get_cached_run 1
     \<lparr>cache_file = Garbled, runs_cache_file = Unreadable, stdin = [], stdout = [],
      prompts = [], requests = [], opened = []\<rparr> = Inl PermissionError"
  by (simp add: get_cached_task_def get_cached_run_def except_not_found_def)

text \<open>
  C9.  Saving replaces what was saved before: after the list \<open>A\<close> and then the list
  \<open>B\<close> are written, the file holds \<open>B\<close> alone, and every lookup that returns an
  identifier returns the identifier of an entry of \<open>B\<close>.  The same holds for the run
  cache.
\<close>

theorem save_replaces_previous_list:
  "cache_file (write_cache_file B (write_cache_file A w)) = Stored (JArr B)
   \<and> (get_cached_task number (write_cache_file B (write_cache_file A w)) = Inr v \<and> v \<noteq> JNull
        \<longrightarrow> (\<exists>t \<in> set B. subscript_str t ''id'' = Inr v))
   \<and> runs_cache_file (write_runs_cache_file B (write_runs_cache_file A w)) = Stored (JArr B)
   \<and> (get_cached_run number (write_runs_cache_file B (write_runs_cache_file A w)) = Inr v \<and> v \<noteq> JNull
        \<longrightarrow> (\<exists>r \<in> set B. subscript_str r ''run_id'' = Inr v))"
proof -
  have pick: "\<exists>t \<in> set B. subscript_str t k = Inr v"
    if "except_not_found (case py_index B i of Inl e \<Rightarrow> Inl e | Inr t \<Rightarrow> subscript_str t k) = Inr v"
      and "v \<noteq> JNull" for i k
  proof (cases "py_index B i")
    case (Inl e)
    with that show ?thesis by (auto simp: except_not_found_def split: if_splits)
  next
    case (Inr t)
    then have "t \<in> set B" by (rule py_index_mem)
    moreover have "subscript_str t k = Inr v"
      using that Inr by (cases "subscript_str t k") (auto simp: except_not_found_def split: if_splits)
    ultimately show ?thesis by blast
  qed
  show ?thesis
    by (auto simp: write_cache_file_def write_runs_cache_file_def get_cached_task_def
        get_cached_run_def intro!: pick)
qed

text \<open>C9 at concrete lists: after \<open>two_tasks\<close> and then \<open>other_tasks\<close> are saved,
  ordinal 1 is the entry of the second list.\<close>

theorem save_replaces_previous_list_witness:
  "get_cached_task 1 (write_cache_file other_tasks (write_cache_file two_tasks blank)) = Inr (JStr ''other'')
   \<and> (\<exists>t \<in> set other_tasks. subscript_str t ''id'' = Inr (JStr ''other''))
   \<and> get_cached_run 1 (write_runs_cache_file other_runs (write_runs_cache_file two_runs blank)) = Inr (JStr ''run_9'')
   \<and> (\<exists>r \<in> set other_runs. subscript_str r ''run_id'' = Inr (JStr ''run_9''))"
  using save_replaces_previous_list [of other_tasks two_tasks blank 1 "JStr ''other''"]
    save_replaces_previous_list [of other_runs two_runs blank 1 "JStr ''run_9''"]
  by (simp add: write_cache_file_def write_runs_cache_file_def get_cached_task_def
      get_cached_run_def other_tasks_def other_runs_def py_index_def except_not_found_def)

section \<open>The dispatcher: credential, confirmation, ordinals\<close>

definition keyed :: env where
  "keyed = \<lparr>API_KEY = Some ''tr_dev_1'', PROJECT_ID = None,
             http = (\<lambda>req. Response 200 (Some (JObj [(''id'', JStr ''run_7'')]))),
             tasks_dir = None, json_loads = (\<lambda>text. None), browser_ok = True\<rparr>"

text \<open>What a declined confirmation leaves: the prompt was shown, the answer was read,
  \<^verbatim>\<open>Cancelled\<close> was printed.\<close>

fun declines :: "key_event list \<Rightarrow> bool" where
  "declines [] = True"
| "declines (Ctrl_C # rest) = True"
| "declines (Line response # rest) = (\<not> affirmative response)"

definition declined :: "question \<Rightarrow> world \<Rightarrow> world" where
  "declined q w =
     w\<lparr>prompts := prompts w @ [q], stdin := tl (stdin w), stdout := stdout w @ [Cancelled]\<rparr>"

lemma confirm_declines:
  "declines (stdin w) \<Longrightarrow>
   confirm q w = (False, w\<lparr>prompts := prompts w @ [q], stdin := tl (stdin w)\<rparr>)"
  by (cases "stdin w" rule: declines.cases) (simp_all add: confirm_def)

lemma run_task_declined:
  "declines (stdin w) \<Longrightarrow>
   run_task env task_id payload auto_open False w = (Inr (), declined (Trigger_q task_id) w)"
  by (simp add: run_task_def confirm_declines declined_def py_print_def)

lemma cancel_run_declined:
  "declines (stdin w) \<Longrightarrow> cancel_run env run_id False w = (Inr (), declined (Cancel_q run_id) w)"
  by (simp add: cancel_run_def confirm_declines declined_def py_print_def)

text \<open>
  C5.  Without \<^verbatim>\<open>-h\<close> and \<^verbatim>\<open>--help\<close> among the arguments and with the credential
  unset (or empty), every invocation prints the complaint and exits with status 1;
  nothing else changes, so no request is sent.  With \<^verbatim>\<open>-h\<close> or \<^verbatim>\<open>--help\<close> the usage
  is printed and the exit status is 0, whatever the credential.
\<close>

theorem missing_credential_exits_at_once:
  "(''-h'' \<notin> set argv \<and> ''--help'' \<notin> set argv \<and> \<not> str_truthy (API_KEY env)
      \<longrightarrow> program env argv w = (1, py_print Key_not_set w)
          \<and> requests (snd (program env argv w)) = requests w)
   \<and> (''-h'' \<in> set argv \<or> ''--help'' \<in> set argv
      \<longrightarrow> program env argv w = (0, py_print Usage w)
          \<and> requests (snd (program env argv w)) = requests w)"
  by (simp add: program_def main_def py_print_def)

theorem missing_credential_exits_at_once_witness:
  "\<not> str_truthy (API_KEY (keyed\<lparr>API_KEY := None\<rparr>))
   \<and> program (keyed\<lparr>API_KEY := None\<rparr>) [''run'', ''hello'', ''-y''] blank
       = (1, py_print Key_not_set blank)
   \<and> requests (snd (program (keyed\<lparr>API_KEY := None\<rparr>) [''run'', ''hello'', ''-y''] blank)) = []
   \<and> program (keyed\<lparr>API_KEY := None\<rparr>) [''run'', ''--help''] blank = (0, py_print Usage blank)"
  using missing_credential_exits_at_once [of "[''run'', ''hello'', ''-y'']" "keyed\<lparr>API_KEY := None\<rparr>" blank]
    missing_credential_exits_at_once [of "[''run'', ''--help'']" "keyed\<lparr>API_KEY := None\<rparr>" blank]
  by (simp add: py_print_def blank_def)

lemma main_after_checks:
  assumes "''-h'' \<notin> set argv" "''--help'' \<notin> set argv" "str_truthy (API_KEY env)"
    and "filter (\<lambda>a. a \<notin> {''-y'', ''--open''}) argv = cmd # rest"
    and "cmd \<notin> {''list'', ''schedules'', ''runs''}"
  shows "main env argv w =
     (if cmd = ''cancel'' then
             (if rest = [] then (Inl (SystemExit 1), py_print Usage_cancel w)
              else if isdigit (hd rest) then
                (case andthen (int_of_str (hd rest)) (\<lambda>number. get_cached_run number w) of
                   Inl e \<Rightarrow> (Inl e, w)
                 | Inr run_id \<Rightarrow>
                     if \<not> truthy run_id then (Inl (SystemExit 1), py_print Run_runs_first w)
                     else cancel_run env run_id (''-y'' \<in> set argv) w)
              else cancel_run env (JStr (hd rest)) (''-y'' \<in> set argv) w)
           else if cmd = ''run'' then
             (if rest = [] then (Inl (SystemExit 1), py_print Usage_run w)
              else
                (case (if ''-p'' \<in> set (cmd # rest) then arg_payload env (cmd # rest) else Inr JNull) of
                   Inl e \<Rightarrow> (Inl e, w)
                 | Inr payload \<Rightarrow> run_task env (JStr (hd rest)) payload (''--open'' \<in> set argv) (''-y'' \<in> set argv) w))
           else if isdigit cmd then
             (case andthen (int_of_str cmd) (\<lambda>number. get_cached_task number w) of
                Inl e \<Rightarrow> (Inl e, w)
              | Inr task_id \<Rightarrow>
                  if \<not> truthy task_id then (Inl (SystemExit 1), py_print Run_list_first w)
                  else run_task env task_id JNull (''--open'' \<in> set argv) (''-y'' \<in> set argv) w)
           else run_task env (JStr cmd) JNull (''--open'' \<in> set argv) (''-y'' \<in> set argv) w)"
proof (cases rest)
  case Nil
  then show ?thesis
    unfolding main_def Let_def assms(4) using assms(1,2,3,5) by simp
next
  case (Cons r rs)
  then show ?thesis
    unfolding main_def Let_def assms(4) using assms(1,2,3,5) by (simp cong: sum.case_cong)
qed

text \<open>
  C6 (as amended).  Without \<^verbatim>\<open>-y\<close>, an answer that declines (end of input, an
  interrupt, or a line that after stripping surrounding whitespace and lower-casing is
  neither \<^verbatim>\<open>y\<close> nor \<^verbatim>\<open>yes\<close>) aborts \<^verbatim>\<open>run_task\<close> and \<^verbatim>\<open>cancel_run\<close>: the prompt was
  shown, \<^verbatim>\<open>Cancelled\<close> is printed, no request is sent and the function returns.  For
  the whole program: an invocation without \<^verbatim>\<open>-y\<close> of any command but the
  listings sends no request, and if it got as far as the prompt it printed
  \<^verbatim>\<open>Cancelled\<close> and exits with status 0.
\<close>

theorem declined_confirmation_aborts:
  "declines (stdin w) \<longrightarrow>
     run_task env task_id payload auto_open False w = (Inr (), declined (Trigger_q task_id) w)
     \<and> cancel_run env run_id False w = (Inr (), declined (Cancel_q run_id) w)
     \<and> requests (declined q w) = requests w
     \<and> (''-y'' \<notin> set argv \<and> filter (\<lambda>a. a \<notin> {''-y'', ''--open''}) argv = cmd # rest
          \<and> cmd \<notin> {''list'', ''schedules'', ''runs''}
        \<longrightarrow> requests (snd (program env argv w)) = requests w
            \<and> (prompts (snd (program env argv w)) \<noteq> prompts w
                 \<longrightarrow> fst (program env argv w) = 0
                     \<and> stdout (snd (program env argv w)) = stdout w @ [Cancelled]))"
proof (intro impI conjI)
  assume d: "declines (stdin w)"
  show "run_task env task_id payload auto_open False w = (Inr (), declined (Trigger_q task_id) w)"
    using d by (rule run_task_declined)
  show "cancel_run env run_id False w = (Inr (), declined (Cancel_q run_id) w)"
    using d by (rule cancel_run_declined)
  show "requests (declined q w) = requests w"
    by (simp add: declined_def)
next
  assume d: "declines (stdin w)"
    and a: "''-y'' \<notin> set argv \<and> filter (\<lambda>a. a \<notin> {''-y'', ''--open''}) argv = cmd # rest
          \<and> cmd \<notin> {''list'', ''schedules'', ''runs''}"
  define ok where "ok r \<longleftrightarrow>
         (\<exists>e. r = (Inl e, w))
         \<or> (\<exists>c m. r = (Inl (SystemExit c), py_print m w))
         \<or> r = (Inr (), py_print Usage w)
         \<or> (\<exists>q. r = (Inr (), declined q w))" for r :: "(py_error + unit) \<times> world"
  have leaves: "\<And>e. ok (Inl e, w)" "\<And>c m. ok (Inl (SystemExit c), py_print m w)"
    "ok (Inr (), py_print Usage w)" "\<And>q. ok (Inr (), declined q w)"
    by (auto simp: ok_def)
  have "ok (main env argv w)"
  proof (cases "''-h'' \<in> set argv \<or> ''--help'' \<in> set argv \<or> \<not> str_truthy (API_KEY env)")
    case True
    then show ?thesis using leaves by (auto simp: main_def)
  next
    case False
    then show ?thesis
      using a d
      by (simp add: main_after_checks run_task_declined cancel_run_declined leaves
          split: sum.splits)
  qed
  then have m: "(\<exists>e. main env argv w = (Inl e, w))
         \<or> (\<exists>c m. main env argv w = (Inl (SystemExit c), py_print m w))
         \<or> main env argv w = (Inr (), py_print Usage w)
         \<or> (\<exists>q. main env argv w = (Inr (), declined q w))"
    by (simp add: ok_def)
  then show "requests (snd (program env argv w)) = requests w"
    by (auto simp: program_def py_print_def declined_def split: py_error.splits)
  assume p: "prompts (snd (program env argv w)) \<noteq> prompts w"
  have "\<exists>q. main env argv w = (Inr (), declined q w)"
    using m p
    by (auto simp: program_def py_print_def split: py_error.splits)
  then show "fst (program env argv w) = 0"
    and "stdout (snd (program env argv w)) = stdout w @ [Cancelled]"
    by (auto simp: program_def declined_def)
qed

text \<open>The amended C6 at a concrete world: the answer \<^verbatim>\<open>no\<close> to \<^verbatim>\<open>trigger run hello\<close>.\<close>

theorem declined_confirmation_aborts_witness:
  "declines (stdin (blank\<lparr>stdin := [Line ''no'']\<rparr>))
   \<and> run_task keyed (JStr ''hello'') JNull False False (blank\<lparr>stdin := [Line ''no'']\<rparr>)
       = (Inr (), declined (Trigger_q (JStr ''hello'')) (blank\<lparr>stdin := [Line ''no'']\<rparr>))
   \<and> cancel_run keyed (JStr ''run_1'') False (blank\<lparr>stdin := [Line ''no'']\<rparr>)
       = (Inr (), declined (Cancel_q (JStr ''run_1'')) (blank\<lparr>stdin := [Line ''no'']\<rparr>))
   \<and> requests (snd (program keyed [''run'', ''hello''] (blank\<lparr>stdin := [Line ''no'']\<rparr>))) = []
   \<and> prompts (snd (program keyed [''run'', ''hello''] (blank\<lparr>stdin := [Line ''no'']\<rparr>)))
       = [Trigger_q (JStr ''hello'')]
   \<and> fst (program keyed [''run'', ''hello''] (blank\<lparr>stdin := [Line ''no'']\<rparr>)) = 0
   \<and> stdout (snd (program keyed [''run'', ''hello''] (blank\<lparr>stdin := [Line ''no'']\<rparr>))) = [Cancelled]"
proof -
  have d: "declines (stdin (blank\<lparr>stdin := [Line ''no'']\<rparr>))"
    by (simp add: affirmative_def strip_def lower_def lower_char_def is_space_def)
  have k: "str_truthy (API_KEY keyed)" by (simp add: keyed_def)
  have m: "main keyed [''run'', ''hello''] (blank\<lparr>stdin := [Line ''no'']\<rparr>)
       = (Inr (), declined (Trigger_q (JStr ''hello'')) (blank\<lparr>stdin := [Line ''no'']\<rparr>))"
    by (simp add: main_def k run_task_declined [OF d])
  have p: "prompts (snd (program keyed [''run'', ''hello''] (blank\<lparr>stdin := [Line ''no'']\<rparr>)))
       = [Trigger_q (JStr ''hello'')]"
    unfolding program_def m by (simp add: declined_def blank_def)
  show ?thesis
    using d p
      declined_confirmation_aborts
        [of "blank\<lparr>stdin := [Line ''no'']\<rparr>" keyed "JStr ''hello''" JNull False "JStr ''run_1''"
          "Trigger_q (JStr ''hello'')" "[''run'', ''hello'']" "''run''" "[''hello'']"]
    by (simp add: blank_def)
qed

text \<open>C6 as the claim states it fails: \<^verbatim>\<open>YES\<close> is a string other than \<^verbatim>\<open>y\<close> and
  \<^verbatim>\<open>yes\<close>, and with that answer \<^verbatim>\<open>trigger run hello\<close> sends the request.\<close>

theorem uppercase_yes_is_affirmative:
  "''YES'' \<noteq> ''y'' \<and> ''YES'' \<noteq> ''yes''
   \<and> requests (snd (program keyed [''run'', ''hello''] (blank\<lparr>stdin := [Line ''YES'']\<rparr>)))
       = [Post_trigger (JStr ''hello'') (JObj [])]
   \<and> requests (snd (program keyed [''cancel'', ''run_1''] (blank\<lparr>stdin := [Line '' y '']\<rparr>)))
       = [Post_cancel (JStr ''run_1'')]"
  by code_simp

text \<open>The white space that \<^verbatim>\<open>str.strip\<close> removes includes the no-break space (160)
  and the next-line control (133), and \<^verbatim>\<open>str.lower\<close> maps the upper-case letters from 192
  on: an answer of a no-break space and \<^verbatim>\<open>y\<close> confirms.\<close>

lemma no_break_space_is_stripped:
  "affirmative ([CHR 0xA0] @ ''Y'' @ [CHR 0x85])
   \<and> requests (snd (program keyed [''run'', ''hello''] (blank\<lparr>stdin := [Line ([CHR 0xA0] @ ''y'')]\<rparr>)))
       = [Post_trigger (JStr ''hello'') (JObj [])]
   \<and> lower [CHR 0xC9, CHR 0xD7] = [CHR 0xE9, CHR 0xD7]"
  by code_simp

section \<open>Which task \<^verbatim>\<open>run\<close> triggers\<close>

lemma requests_open_url: "requests (open_url env u w) = requests w"
  by (simp add: open_url_def py_print_def)

lemma run_task_skip_confirm_requests:
  "requests (snd (run_task env task_id payload auto_open True w))
     = requests w @ [Post_trigger task_id (if truthy payload then payload else JObj [])]"
  by (simp add: run_task_def send_def py_print_def Let_def requests_open_url split: sum.splits)

lemma requests_confirm: "requests (snd (confirm q w)) = requests w"
  by (simp add: confirm_def split: list.splits key_event.splits)

lemma run_task_requests:
  "requests (snd (run_task env task_id payload auto_open skip_confirm w)) = requests w
   \<or> requests (snd (run_task env task_id payload auto_open skip_confirm w))
       = requests w @ [Post_trigger task_id (if truthy payload then payload else JObj [])]"
proof (cases skip_confirm)
  case True
  then show ?thesis by (simp add: run_task_skip_confirm_requests)
next
  case False
  obtain go w1 where c: "confirm (Trigger_q task_id) w = (go, w1)"
    by (cases "confirm (Trigger_q task_id) w")
  then have "requests w1 = requests w" using requests_confirm [of "Trigger_q task_id" w] by simp
  then show ?thesis
    using False c
    by (simp add: run_task_def send_def py_print_def Let_def requests_open_url split: sum.splits)
qed

lemma digits_are_no_command:
  "isdigit s \<Longrightarrow> s \<notin> {''list'', ''schedules'', ''runs'', ''cancel'', ''run''}"
  by (auto simp: isdigit_def is_decimal_def)

text \<open>
  C2 (as amended).  \<^verbatim>\<open>run <arg>\<close> passes \<^verbatim>\<open><arg>\<close> to \<^verbatim>\<open>run_task\<close> as it is, also when
  \<^verbatim>\<open><arg>\<close> is all digits and whether or not \<^verbatim>\<open>-p\<close> is given: if the payload of \<^verbatim>\<open>-p\<close>
  does not parse the program stops before \<^verbatim>\<open>run_task\<close>, otherwise \<^verbatim>\<open>run_task\<close> gets the
  task identifier \<^verbatim>\<open><arg>\<close>.  So the only request such an invocation can send is the
  trigger of the task literally named \<^verbatim>\<open><arg>\<close>, and with \<^verbatim>\<open>-y\<close> and a payload that
  parses it sends exactly that.  Only the bare form \<^verbatim>\<open><ordinal>\<close> is resolved through
  the task cache: when \<^verbatim>\<open>int\<close> accepts the digits and the lookup gives a non-empty
  identifier, that identifier is handed to \<^verbatim>\<open>run_task\<close>; when \<^verbatim>\<open>int\<close> rejects them the
  program stops with its error.
\<close>

theorem run_argument_is_literal:
  "''-h'' \<notin> set argv \<and> ''--help'' \<notin> set argv \<and> str_truthy (API_KEY env)
   \<and> filter (\<lambda>a. a \<notin> {''-y'', ''--open''}) argv = cmd # rest \<longrightarrow>
     (cmd = ''run'' \<and> rest = a # others
        \<longrightarrow> main env argv w
              = (case (if ''-p'' \<in> set (cmd # rest) then arg_payload env (cmd # rest) else Inr JNull) of
                   Inl e \<Rightarrow> (Inl e, w)
                 | Inr payload \<Rightarrow>
                     run_task env (JStr a) payload (''--open'' \<in> set argv) (''-y'' \<in> set argv) w)
            \<and> (requests (snd (main env argv w)) = requests w
                \<or> (\<exists>payload. requests (snd (main env argv w))
                                = requests w @ [Post_trigger (JStr a) payload]))
            \<and> (''-y'' \<in> set argv
                \<and> (if ''-p'' \<in> set (cmd # rest) then arg_payload env (cmd # rest) else Inr JNull)
                    = Inr payload
                \<longrightarrow> requests (snd (main env argv w))
                      = requests w @ [Post_trigger (JStr a) (if truthy payload then payload else JObj [])]))
     \<and> (isdigit cmd \<and> int_of_str cmd = Inr number
          \<and> get_cached_task number w = Inr task_id \<and> truthy task_id
        \<longrightarrow> main env argv w
              = run_task env task_id JNull (''--open'' \<in> set argv) (''-y'' \<in> set argv) w
            \<and> (''-y'' \<in> set argv
                \<longrightarrow> requests (snd (main env argv w))
                      = requests w @ [Post_trigger task_id (JObj [])]))
     \<and> (isdigit cmd \<and> int_of_str cmd = Inl err \<longrightarrow> main env argv w = (Inl err, w))"
proof (intro impI conjI; elim conjE)
  assume h: "''-h'' \<notin> set argv" "''--help'' \<notin> set argv" "str_truthy (API_KEY env)"
    "filter (\<lambda>a. a \<notin> {''-y'', ''--open''}) argv = cmd # rest"
  {
    assume r: "cmd = ''run''" "rest = a # others"
    have c: "cmd \<notin> {''list'', ''schedules'', ''runs''}" using r by simp
    let ?p = "if ''-p'' \<in> set (cmd # rest) then arg_payload env (cmd # rest) else Inr JNull"
    show m: "main env argv w
        = (case ?p of
             Inl e \<Rightarrow> (Inl e, w)
           | Inr payload \<Rightarrow>
               run_task env (JStr a) payload (''--open'' \<in> set argv) (''-y'' \<in> set argv) w)"
      using r by (simp add: main_after_checks [OF h c] split: sum.splits)
    show "requests (snd (main env argv w)) = requests w
        \<or> (\<exists>payload. requests (snd (main env argv w)) = requests w @ [Post_trigger (JStr a) payload])"
    proof (cases ?p)
      case (Inl e)
      then show ?thesis unfolding m by simp
    next
      case (Inr p)
      then show ?thesis
        unfolding m
        using run_task_requests [of env "JStr a" p "''--open'' \<in> set argv" "''-y'' \<in> set argv" w]
        by auto
    qed
    assume "''-y'' \<in> set argv" "?p = Inr payload"
    then show "requests (snd (main env argv w))
        = requests w @ [Post_trigger (JStr a) (if truthy payload then payload else JObj [])]"
      unfolding m by (simp add: run_task_skip_confirm_requests)
  }
  {
    assume r: "isdigit cmd" "int_of_str cmd = Inr number"
      "get_cached_task number w = Inr task_id" "truthy task_id"
    have c: "cmd \<notin> {''list'', ''schedules'', ''runs''}"
      and c': "cmd \<noteq> ''cancel''" "cmd \<noteq> ''run''"
      using digits_are_no_command [OF r(1)] by auto
    show m: "main env argv w
        = run_task env task_id JNull (''--open'' \<in> set argv) (''-y'' \<in> set argv) w"
      using r c' by (simp add: main_after_checks [OF h c] andthen_def)
    assume "''-y'' \<in> set argv"
    then show "requests (snd (main env argv w)) = requests w @ [Post_trigger task_id (JObj [])]"
      by (simp add: m run_task_skip_confirm_requests)
  }
  {
    assume r: "isdigit cmd" "int_of_str cmd = Inl err"
    have c: "cmd \<notin> {''list'', ''schedules'', ''runs''}"
      and c': "cmd \<noteq> ''cancel''" "cmd \<noteq> ''run''"
      using digits_are_no_command [OF r(1)] by auto
    show "main env argv w = (Inl err, w)"
      using r c' by (simp add: main_after_checks [OF h c] andthen_def)
  }
qed

text \<open>The amended C2 at a concrete world, with \<open>two_tasks\<close> in the cache:
  \<^verbatim>\<open>trigger run 1 -y\<close> and \<^verbatim>\<open>trigger run 1 -p [7] -y\<close> post to the task named \<^verbatim>\<open>1\<close>,
  \<^verbatim>\<open>trigger 1 -y\<close> posts to the first cached task, and a superscript two, a digit that
  \<^verbatim>\<open>int\<close> rejects, ends in \<^verbatim>\<open>ValueError\<close>.\<close>

definition parsing :: env where
  "parsing = keyed\<lparr>json_loads := (\<lambda>text. if text = ''[7]'' then Some (JArr [JInt 7]) else None)\<rparr>"

theorem run_argument_is_literal_witness:
  "main keyed [''run'', ''1'', ''-y''] (write_cache_file two_tasks blank)
     = run_task keyed (JStr ''1'') JNull False True (write_cache_file two_tasks blank)
   \<and> requests (snd (main keyed [''run'', ''1'', ''-y''] (write_cache_file two_tasks blank)))
     = [Post_trigger (JStr ''1'') (JObj [])]
   \<and> requests (snd (main parsing [''run'', ''1'', ''-p'', ''[7]'', ''-y'']
                       (write_cache_file two_tasks blank)))
     = [Post_trigger (JStr ''1'') (JArr [JInt 7])]
   \<and> isdigit ''1'' \<and> int_of_str ''1'' = Inr 1
   \<and> get_cached_task 1 (write_cache_file two_tasks blank) = Inr (JStr ''first'')
   \<and> main keyed [''1'', ''-y''] (write_cache_file two_tasks blank)
     = run_task keyed (JStr ''first'') JNull False True (write_cache_file two_tasks blank)
   \<and> requests (snd (main keyed [''1'', ''-y''] (write_cache_file two_tasks blank)))
     = [Post_trigger (JStr ''first'') (JObj [])]
   \<and> isdigit [CHR 0xB2] \<and> int_of_str [CHR 0xB2] = Inl ValueError
   \<and> main keyed [[CHR 0xB2], ''-y''] (write_cache_file two_tasks blank)
     = (Inl ValueError, write_cache_file two_tasks blank)"
proof -
  have g: "get_cached_task 1 (write_cache_file two_tasks blank) = Inr (JStr ''first'')"
    by (simp add: get_cached_task_def write_cache_file_def two_tasks_def
        py_index_def except_not_found_def)
  have d: "isdigit ''1''" "int_of_str ''1'' = Inr 1"
    "isdigit [CHR 0xB2]" "int_of_str [CHR 0xB2] = Inl ValueError"
    by (simp_all add: isdigit_def int_of_str_def is_decimal_def)
  have k: "str_truthy (API_KEY keyed)" "str_truthy (API_KEY parsing)"
    by (simp_all add: keyed_def parsing_def)
  have r: "requests (write_cache_file two_tasks blank) = []"
    by (simp add: write_cache_file_def blank_def)
  have p: "arg_payload parsing [''run'', ''1'', ''-p'', ''[7]''] = Inr (JArr [JInt 7])"
    by (simp add: arg_payload_def parsing_def py_index_def andthen_def)
  show ?thesis
    using g d k r p
      run_argument_is_literal [of "[''run'', ''1'', ''-y'']" keyed "''run''" "[''1'']" "''1''" "[]"
        "write_cache_file two_tasks blank" JNull 1 "JStr ''first''" ValueError]
      run_argument_is_literal [of "[''run'', ''1'', ''-p'', ''[7]'', ''-y'']" parsing "''run''"
        "[''1'', ''-p'', ''[7]'']" "''1''" "[''-p'', ''[7]'']"
        "write_cache_file two_tasks blank" "JArr [JInt 7]" 1 "JStr ''first''" ValueError]
      run_argument_is_literal [of "[''1'', ''-y'']" keyed "''1''" "[]" "''1''" "[]"
        "write_cache_file two_tasks blank" JNull 1 "JStr ''first''" ValueError]
      run_argument_is_literal [of "[[CHR 0xB2], ''-y'']" keyed "[CHR 0xB2]" "[]" "''1''" "[]"
        "write_cache_file two_tasks blank" JNull 1 "JStr ''first''" ValueError]
    by (simp add: run_task_skip_confirm_requests)
qed

text \<open>C2 as the claim states it fails: with \<open>two_tasks\<close> in the cache, ordinal 1
  resolves to \<^verbatim>\<open>first\<close>, yet \<^verbatim>\<open>trigger run 1 -y\<close> posts to the task named \<^verbatim>\<open>1\<close>.\<close>

theorem run_with_ordinal_is_not_resolved:
  "get_cached_task 1 (write_cache_file two_tasks blank) = Inr (JStr ''first'')
   \<and> requests (snd (program keyed [''run'', ''1'', ''-y''] (write_cache_file two_tasks blank)))
       = [Post_trigger (JStr ''1'') (JObj [])]"
  by (simp add: program_def main_def keyed_def blank_def write_cache_file_def two_tasks_def
      get_cached_task_def py_index_def except_not_found_def run_task_def send_def andthen_def
      py_print_def)

section \<open>Listings: what is fetched, kept and saved\<close>

text \<open>The value \<^verbatim>\<open>r.get(k)\<close> of a dictionary \<open>r\<close>, \<open>JNull\<close> when the key is absent.\<close>

definition field :: "json \<Rightarrow> string \<Rightarrow> json" where
  "field r k = (case r of JObj kvs \<Rightarrow> (case map_of kvs k of None \<Rightarrow> JNull | Some v \<Rightarrow> v) | _ \<Rightarrow> JNull)"

definition is_dict :: "json \<Rightarrow> bool" where
  "is_dict v = (case v of JObj kvs \<Rightarrow> True | _ \<Rightarrow> False)"

text \<open>A run is active when its status is none of the three terminal ones.\<close>

definition active :: "json \<Rightarrow> bool" where
  "active r = (field r ''status'' \<notin> {JStr ''COMPLETED'', JStr ''FAILED'', JStr ''CANCELED''})"

definition run_entry :: "json \<Rightarrow> json" where
  "run_entry r =
     JObj [(''run_id'', field r ''id''), (''task_id'', field r ''taskIdentifier''),
           (''status'', field r ''status'')]"

text \<open>Functions that only print leave everything but the printed lines as it was.\<close>

lemma py_get_dict: "is_dict r \<Longrightarrow> py_get r k JNull = Inr (field r k)"
  by (cases r) (simp_all add: is_dict_def field_def)

lemma show_runs_prints: "\<exists>ms. snd (show_runs i rs w) = w\<lparr>stdout := stdout w @ ms\<rparr>"
proof (induction rs arbitrary: i w)
  case Nil
  have "w = w\<lparr>stdout := stdout w @ []\<rparr>" by simp
  then show ?case by (metis show_runs.simps(1) snd_conv)
next
  case (Cons r rs)
  show ?case
  proof (cases "run_row r")
    case (Inl e)
    have "w = w\<lparr>stdout := stdout w @ []\<rparr>" by simp
    with Inl show ?thesis by (metis show_runs.simps(2) sum.case(1) snd_conv)
  next
    case (Inr line)
    from Cons.IH [of "Suc i" "py_print (line i) w"] obtain ms where
      "snd (show_runs (Suc i) rs (py_print (line i) w))
         = (py_print (line i) w)\<lparr>stdout := stdout (py_print (line i) w) @ ms\<rparr>" ..
    then have "snd (show_runs i (r # rs) w) = w\<lparr>stdout := stdout w @ (line i # ms)\<rparr>"
      using Inr by (simp add: py_print_def)
    then show ?thesis ..
  qed
qed

lemma active_runs_filter: "list_all is_dict runs \<Longrightarrow> active_runs runs = Inr (filter active runs)"
  by (induction runs) (auto simp: py_get_dict active_def)

lemma runs_cache_entries_map:
  "list_all is_dict runs \<Longrightarrow> runs_cache_entries runs = Inr (map run_entry runs)"
  by (induction runs) (auto simp: py_get_dict run_entry_def)

lemma list_runs_active_world:
  assumes "response_data (http env (Get_runs 50)) = Inr (JArr runs)" "list_all is_dict runs"
  shows "\<exists>ms. snd (list_runs env True w)
           = w\<lparr>requests := requests w @ [Get_runs 50],
               runs_cache_file := Stored (JArr (map run_entry (filter active runs))),
               stdout := stdout w @ ms\<rparr>"
proof -
  let ?kept = "filter active runs"
  let ?w = "w\<lparr>requests := requests w @ [Get_runs 50]\<rparr>"
  let ?w2 = "py_print In_progress_runs (write_runs_cache_file (map run_entry ?kept) ?w)"
  have k: "list_all is_dict ?kept" using assms(2) by (simp add: list_all_iff)
  obtain ms where ms: "snd (show_runs 1 ?kept ?w2) = ?w2\<lparr>stdout := stdout ?w2 @ ms\<rparr>"
    using show_runs_prints by blast
  have "snd (list_runs env True w) = py_print None_found ?w2
      \<or> snd (list_runs env True w) = snd (show_runs 1 ?kept ?w2)"
    using assms
    by (simp add: list_runs_def send_def andthen_def active_runs_filter
        runs_cache_entries_map [OF k] Let_def split: prod.splits sum.splits)
  then show ?thesis
  proof
    assume "snd (list_runs env True w) = py_print None_found ?w2"
    then have "snd (list_runs env True w)
           = w\<lparr>requests := requests w @ [Get_runs 50],
               runs_cache_file := Stored (JArr (map run_entry (filter active runs))),
               stdout := stdout w @ [In_progress_runs, None_found]\<rparr>"
      by (simp add: py_print_def write_runs_cache_file_def)
    then show ?thesis ..
  next
    assume "snd (list_runs env True w) = snd (show_runs 1 ?kept ?w2)"
    then have "snd (list_runs env True w)
           = w\<lparr>requests := requests w @ [Get_runs 50],
               runs_cache_file := Stored (JArr (map run_entry (filter active runs))),
               stdout := stdout w @ (In_progress_runs # ms)\<rparr>"
      using ms by (simp add: py_print_def write_runs_cache_file_def)
    then show ?thesis ..
  qed
qed

text \<open>
  C7.  Let the API answer the request for the recent runs with a list of run objects.
  Then the comprehension of \<^verbatim>\<open>runs --active\<close> keeps exactly the runs whose status
  is none of \<^verbatim>\<open>COMPLETED\<close>, \<^verbatim>\<open>FAILED\<close>, \<^verbatim>\<open>CANCELED\<close>, in their order (\<open>filter\<close>); the
  run cache is written with the entries of those runs; the one request sent is
  \<open>Get_runs 50\<close>, which carries a page size and no status; and when \<^verbatim>\<open>list_runs\<close>
  returns, it returns the kept runs.
\<close>

theorem runs_active_keeps_non_terminal:
  "response_data (http env (Get_runs 50)) = Inr (JArr runs) \<and> list_all is_dict runs \<longrightarrow>
     active_runs runs = Inr (filter active runs)
     \<and> runs_cache_file (snd (list_runs env True w))
         = Stored (JArr (map run_entry (filter active runs)))
     \<and> requests (snd (list_runs env True w)) = requests w @ [Get_runs 50]
     \<and> (\<forall>v. fst (list_runs env True w) = Inr v \<longrightarrow> v = JArr (filter active runs))"
proof (intro impI conjI allI; elim conjE)
  assume a: "response_data (http env (Get_runs 50)) = Inr (JArr runs)" "list_all is_dict runs"
  show "active_runs runs = Inr (filter active runs)"
    using a(2) by (rule active_runs_filter)
  obtain ms where ms: "snd (list_runs env True w)
           = w\<lparr>requests := requests w @ [Get_runs 50],
               runs_cache_file := Stored (JArr (map run_entry (filter active runs))),
               stdout := stdout w @ ms\<rparr>"
    using list_runs_active_world [OF a] by blast
  show "runs_cache_file (snd (list_runs env True w))
         = Stored (JArr (map run_entry (filter active runs)))"
    by (simp add: ms)
  show "requests (snd (list_runs env True w)) = requests w @ [Get_runs 50]"
    by (simp add: ms)
  fix v
  assume "fst (list_runs env True w) = Inr v"
  then show "v = JArr (filter active runs)"
    using a
    by (auto simp: list_runs_def send_def andthen_def active_runs_filter Let_def
        split: prod.splits sum.splits if_splits)
qed

text \<open>C7 at a concrete answer of the API: of three runs, the completed one is dropped.\<close>

definition run_a :: json where
  "run_a = JObj [(''id'', JStr ''run_a''), (''taskIdentifier'', JStr ''send-email''),
                 (''status'', JStr ''EXECUTING''), (''updatedAt'', JStr ''2024-05-03T10:15:00Z'')]"

definition run_b :: json where
  "run_b = JObj [(''id'', JStr ''run_b''), (''taskIdentifier'', JStr ''send-email''),
                 (''status'', JStr ''COMPLETED''), (''updatedAt'', JStr ''2024-05-02T08:00:00Z'')]"

definition run_c :: json where
  "run_c = JObj [(''id'', JStr ''run_c''), (''taskIdentifier'', JStr ''resize-image''),
                 (''status'', JStr ''QUEUED''), (''updatedAt'', JStr ''2024-05-01T07:30:00Z'')]"

definition sample_runs :: "json list" where
  "sample_runs = [run_a, run_b, run_c]"

definition sample_api :: env where
  "sample_api = keyed\<lparr>http := (\<lambda>req. Response 200 (Some (JObj [(''data'', JArr sample_runs)])))\<rparr>"

lemma sample_api_data: "response_data (http sample_api req) = Inr (JArr sample_runs)"
  by (simp add: sample_api_def response_data_def andthen_def)

lemma sample_runs_dicts: "list_all is_dict sample_runs"
  by (simp add: sample_runs_def run_a_def run_b_def run_c_def is_dict_def)

lemma sample_runs_active: "filter active sample_runs = [run_a, run_c]"
  by (simp add: sample_runs_def run_a_def run_b_def run_c_def active_def field_def)

theorem runs_active_keeps_non_terminal_witness:
  "response_data (http sample_api (Get_runs 50)) = Inr (JArr sample_runs)
   \<and> list_all is_dict sample_runs
   \<and> active_runs sample_runs = Inr [run_a, run_c]
   \<and> runs_cache_file (snd (list_runs sample_api True blank))
       = Stored (JArr [run_entry run_a, run_entry run_c])
   \<and> requests (snd (list_runs sample_api True blank)) = [Get_runs 50]"
  using runs_active_keeps_non_terminal [of sample_api sample_runs blank]
  by (simp add: sample_api_data sample_runs_dicts sample_runs_active) (simp add: blank_def)

section \<open>The local scan\<close>

text \<open>The texts of the \<^verbatim>\<open>.ts\<close> files under a folder, the identifiers the pattern
  finds in them, and a folder all of whose \<^verbatim>\<open>.ts\<close> files can be read.\<close>

definition ts_files :: "dir \<Rightarrow> (string \<times> string option) list" where
  "ts_files d = filter (\<lambda>f. endswith (fst f) ''.ts'') (walk d)"

definition extracted :: "dir \<Rightarrow> string list" where
  "extracted d = concat (map (\<lambda>f. case snd f of None \<Rightarrow> [] | Some text \<Rightarrow> finditer text) (ts_files d))"







text \<open>C8 at a concrete folder: a template identifier, a repeated identifier, a file
  that is not \<^verbatim>\<open>.ts\<close> and a nested folder.\<close>

definition sample_dir :: dir where
  \<open>sample_dir =
     Dir [(''report.ts'',
           Some (''id: '' @ [CHR 0x27] @ ''report-weekly'' @ [CHR 0x27] @ '', id: "$campaignId", ''
                 @ ''id:"alpha" id:  "report-weekly"'')),
          (''notes.md'', Some ''id: "ignored"'')]
         [Dir [(''nested.ts'', Some ''export const t = task({ id: "Beta" })'')] []]\<close>


lemma sample_dir_extracted:
  "extracted sample_dir = [''report-weekly'', ''$campaignId'', ''alpha'', ''report-weekly'', ''Beta'']"
  by code_simp





text \<open>The pattern's \<^verbatim>\<open>\s*\<close> takes every white space there is below 256, the no-break
  space (160) and the next-line control (133) among them.\<close>

lemma no_break_space_after_key:
  \<open>finditer (''id:'' @ [CHR 0xA0, CHR 0x85] @ ''"foo"'') = [''foo'']\<close>
  by code_simp

text \<open>An identifier with \<^verbatim>\<open>$\<close> inside, not at its start, is not a template for the
  scan: \<^verbatim>\<open>report-$campaignId\<close> is listed.\<close>

lemma dollar_inside_is_kept:
  \<open>fst (list_tasks_local
          (keyed\<lparr>tasks_dir := Some (Dir [(''r.ts'', Some ''id: "report-$campaignId", id: "report-weekly"'')] [])\<rparr>)
          None blank)
     = Inr [JObj [(''id'', JStr ''report-$campaignId'')], JObj [(''id'', JStr ''report-weekly'')]]\<close>
  by code_simp

section \<open>The remote task listing\<close>

text \<open>
  A run as the API documents it: an object whose task identifier is a string (or
  missing, or null) and whose update time is a string (or missing).  The entry built
  from a run carries its task identifier, its status and the first ten characters of
  its update time, the date.
\<close>

definition task_id_of :: "json \<Rightarrow> json" where
  "task_id_of r = field r ''taskIdentifier''"

definition date_of :: "json \<Rightarrow> json" where
  "date_of r = (case py_get r ''updatedAt'' (JStr []) of Inr (JStr s) \<Rightarrow> JStr (take 10 s) | _ \<Rightarrow> JNull)"

definition api_run :: "json \<Rightarrow> bool" where
  "api_run r =
     (is_dict r
      \<and> (case task_id_of r of JNull \<Rightarrow> True | JStr s \<Rightarrow> True | _ \<Rightarrow> False)
      \<and> (case py_get r ''updatedAt'' (JStr []) of Inr (JStr s) \<Rightarrow> True | _ \<Rightarrow> False))"

definition task_entry :: "json \<Rightarrow> json" where
  "task_entry r = JObj [(''id'', task_id_of r), (''status'', field r ''status''), (''updated'', date_of r)]"

text \<open>Each element once, at the place of its first occurrence: \<open>remdups\<close> keeps
  the last occurrences, so the list is reversed before and after.\<close>

definition first_occurrences :: "'a list \<Rightarrow> 'a list" where
  "first_occurrences xs = rev (remdups (rev xs))"

text \<open>The runs that the loop of \<^verbatim>\<open>list_tasks\<close> turns into entries, given the
  identifiers seen so far.\<close>

fun first_runs :: "json list \<Rightarrow> json list \<Rightarrow> json list" where
  "first_runs seen [] = []"
| "first_runs seen (r # rs) =
     (if truthy (task_id_of r) \<and> task_id_of r \<notin> set seen
      then r # first_runs (seen @ [task_id_of r]) rs
      else first_runs seen rs)"

lemma remdups_snoc: "remdups (ys @ [x]) = filter (\<lambda>y. y \<noteq> x) (remdups ys) @ [x]"
  by (induction ys) auto

lemma first_occurrences_Cons:
  "first_occurrences (x # xs) = x # filter (\<lambda>y. y \<noteq> x) (first_occurrences xs)"
  by (simp add: first_occurrences_def remdups_snoc rev_filter)

lemma first_occurrences_filter:
  "first_occurrences (filter P xs) = filter P (first_occurrences xs)"
  by (simp add: first_occurrences_def rev_filter remdups_filter)

lemma first_runs_ids:
  "map task_id_of (first_runs seen rs)
     = first_occurrences (filter (\<lambda>k. truthy k \<and> k \<notin> set seen) (map task_id_of rs))"
proof (induction rs arbitrary: seen)
  case Nil
  then show ?case by (simp add: first_occurrences_def)
next
  case (Cons r rs)
  show ?case
  proof (cases "truthy (task_id_of r) \<and> task_id_of r \<notin> set seen")
    case True
    have "filter (\<lambda>y. y \<noteq> task_id_of r) (first_occurrences (filter (\<lambda>k. truthy k \<and> k \<notin> set seen) (map task_id_of rs)))
        = first_occurrences (filter (\<lambda>k. truthy k \<and> k \<notin> set (seen @ [task_id_of r])) (map task_id_of rs))"
      by (simp add: first_occurrences_filter [symmetric] conj_commute conj_left_commute cong: filter_cong)
    with True Cons.IH [of "seen @ [task_id_of r]"] show ?thesis
      by (simp add: first_occurrences_Cons)
  next
    case False
    with Cons.IH [of seen] show ?thesis by auto
  qed
qed

lemma first_runs_fresh:
  "r \<in> set (first_runs seen rs) \<Longrightarrow> r \<in> set rs \<and> truthy (task_id_of r) \<and> task_id_of r \<notin> set seen"
proof (induction rs arbitrary: seen)
  case Nil
  then show ?case by simp
next
  case (Cons x rs)
  show ?case
  proof (cases "truthy (task_id_of x) \<and> task_id_of x \<notin> set seen")
    case True
    with Cons.prems have "r = x \<or> r \<in> set (first_runs (seen @ [task_id_of x]) rs)" by simp
    then show ?thesis
    proof
      assume "r = x"
      with True show ?thesis by simp
    next
      assume "r \<in> set (first_runs (seen @ [task_id_of x]) rs)"
      from Cons.IH [OF this] show ?thesis by simp
    qed
  next
    case False
    with Cons.prems have "r \<in> set (first_runs seen rs)" by auto
    from Cons.IH [OF this] show ?thesis by simp
  qed
qed

lemma first_runs_find:
  "r \<in> set (first_runs seen rs) \<Longrightarrow> List.find (\<lambda>r'. task_id_of r' = task_id_of r) rs = Some r"
proof (induction rs arbitrary: seen)
  case Nil
  then show ?case by simp
next
  case (Cons x rs)
  show ?case
  proof (cases "truthy (task_id_of x) \<and> task_id_of x \<notin> set seen")
    case True
    with Cons.prems have "r = x \<or> r \<in> set (first_runs (seen @ [task_id_of x]) rs)" by simp
    then show ?thesis
    proof
      assume "r = x"
      then show ?thesis by simp
    next
      assume m: "r \<in> set (first_runs (seen @ [task_id_of x]) rs)"
      then have "task_id_of r \<noteq> task_id_of x" using first_runs_fresh [OF m] by auto
      with Cons.IH [OF m] show ?thesis by simp
    qed
  next
    case False
    with Cons.prems have m: "r \<in> set (first_runs seen rs)" by auto
    then have "task_id_of r \<noteq> task_id_of x" using first_runs_fresh [OF m] False by auto
    with Cons.IH [OF m] show ?thesis by simp
  qed
qed

lemma key_in_string: "key_in (JStr s) seen = Inr (JStr s \<in> set seen)"
proof -
  have "key_eq (JStr s) k = (JStr s = k)" for k
    by (cases k) (auto simp: key_eq_def)
  then show ?thesis by (simp add: key_in_def list_ex_iff)
qed

lemma tasks_loop_first_runs:
  "list_all api_run runs \<Longrightarrow>
   tasks_loop None runs seen tasks = Inr (tasks @ map task_entry (first_runs seen runs))"
proof (induction runs arbitrary: seen tasks)
  case Nil
  then show ?case by simp
next
  case (Cons r runs)
  then have a: "api_run r" and rest: "list_all api_run runs" by simp_all
  from a have d: "is_dict r" by (simp add: api_run_def)
  have g: "py_get r ''taskIdentifier'' JNull = Inr (task_id_of r)"
    "py_get r ''status'' JNull = Inr (field r ''status'')"
    using d by (simp_all add: py_get_dict task_id_of_def)
  show ?case
  proof (cases "truthy (task_id_of r)")
    case False
    then show ?thesis using g Cons.IH [OF rest] by simp
  next
    case True
    with a obtain s where s: "task_id_of r = JStr s"
      by (auto simp: api_run_def split: json.splits)
    from a obtain u where u: "py_get r ''updatedAt'' (JStr []) = Inr (JStr u)"
      by (auto simp: api_run_def split: sum.splits json.splits)
    have e: "task_entry r = JObj [(''id'', JStr s), (''status'', field r ''status''), (''updated'', JStr (take 10 u))]"
      by (simp add: task_entry_def date_of_def s u)
    show ?thesis
      using True g s u e Cons.IH [OF rest]
      by (simp add: key_in_string search_skips_def andthen_def)
  qed
qed

lemma show_tasks_entries:
  "\<exists>ms. show_tasks i (map task_entry rs) w = (Inr (), w\<lparr>stdout := stdout w @ ms\<rparr>)"
proof (induction rs arbitrary: i w)
  case Nil
  have "w = w\<lparr>stdout := stdout w @ []\<rparr>" by simp
  then show ?case by (metis list.simps(8) show_tasks.simps(1))
next
  case (Cons r rs)
  let ?m = "Task_line i (task_id_of r) (if field r ''status'' = JStr ''COMPLETED'' then Check_mark else Hourglass)"
  from Cons.IH [of "Suc i" "py_print ?m w"] obtain ms where
    "show_tasks (Suc i) (map task_entry rs) (py_print ?m w)
       = (Inr (), (py_print ?m w)\<lparr>stdout := stdout (py_print ?m w) @ ms\<rparr>)" ..
  then have "show_tasks i (map task_entry (r # rs)) w = (Inr (), w\<lparr>stdout := stdout w @ (?m # ms)\<rparr>)"
    by (simp add: task_entry_def py_print_def)
  then show ?case ..
qed

text \<open>
  C10.  Let the API answer the request for the recent runs with a list of runs as it
  documents them.  Then \<^verbatim>\<open>list_tasks\<close> without a search term sends that one request
  (\<open>Get_runs 100\<close>, the runs endpoint), and returns and saves the entries of a list of
  runs \<open>firsts\<close> such that: the task identifiers of \<open>firsts\<close> are the non-empty task
  identifiers of the fetched runs, each once, in the order of their first occurrence;
  and each run of \<open>firsts\<close> is the first fetched run with its task identifier, so the
  entry carries the status and the date of that run.  Runs with a missing, null or
  empty task identifier give no entry, and every listed identifier is the identifier
  of a fetched run.
\<close>

theorem remote_listing_is_first_run_per_task:
  "response_data (http env (Get_runs 100)) = Inr (JArr runs) \<and> list_all api_run runs \<longrightarrow>
     (\<exists>firsts.
        fst (list_tasks env None w) = Inr (map task_entry firsts)
        \<and> cache_file (snd (list_tasks env None w)) = Stored (JArr (map task_entry firsts))
        \<and> requests (snd (list_tasks env None w)) = requests w @ [Get_runs 100]
        \<and> map task_id_of firsts = first_occurrences (filter truthy (map task_id_of runs))
        \<and> distinct (map task_id_of firsts)
        \<and> set (map task_id_of firsts) = {k \<in> task_id_of ` set runs. truthy k}
        \<and> (\<forall>r \<in> set firsts. List.find (\<lambda>r'. task_id_of r' = task_id_of r) runs = Some r))"
proof (intro impI; elim conjE)
  assume a: "response_data (http env (Get_runs 100)) = Inr (JArr runs)" "list_all api_run runs"
  let ?firsts = "first_runs [] runs"
  let ?w = "w\<lparr>requests := requests w @ [Get_runs 100]\<rparr>"
  let ?w2 = "py_print Tasks (write_cache_file (map task_entry ?firsts) ?w)"
  have loop: "tasks_loop None runs [] [] = Inr (map task_entry ?firsts)"
    using tasks_loop_first_runs [OF a(2), of "[]" "[]"] by simp
  obtain ms where ms: "show_tasks 1 (map task_entry ?firsts) ?w2 = (Inr (), ?w2\<lparr>stdout := stdout ?w2 @ ms\<rparr>)"
    using show_tasks_entries by blast
  have r: "list_tasks env None w = (Inr (map task_entry ?firsts), py_print None_found ?w2)
         \<or> list_tasks env None w = (Inr (map task_entry ?firsts), ?w2\<lparr>stdout := stdout ?w2 @ ms\<rparr>)"
    using a(1) loop ms by (simp add: list_tasks_def send_def andthen_def Let_def)
  have ids: "map task_id_of ?firsts = first_occurrences (filter truthy (map task_id_of runs))"
    by (simp add: first_runs_ids)
  have "fst (list_tasks env None w) = Inr (map task_entry ?firsts)"
    using r by auto
  moreover have "cache_file (snd (list_tasks env None w)) = Stored (JArr (map task_entry ?firsts))"
    using r by (auto simp: py_print_def write_cache_file_def)
  moreover have "requests (snd (list_tasks env None w)) = requests w @ [Get_runs 100]"
    using r by (auto simp: py_print_def write_cache_file_def)
  moreover note ids
  moreover have "distinct (map task_id_of ?firsts)"
    unfolding ids by (simp add: first_occurrences_def)
  moreover have "set (map task_id_of ?firsts) = {k \<in> task_id_of ` set runs. truthy k}"
    unfolding ids by (auto simp: first_occurrences_def)
  moreover have "\<forall>r \<in> set ?firsts. List.find (\<lambda>r'. task_id_of r' = task_id_of r) runs = Some r"
    by (simp add: first_runs_find)
  ultimately show "\<exists>firsts.
        fst (list_tasks env None w) = Inr (map task_entry firsts)
        \<and> cache_file (snd (list_tasks env None w)) = Stored (JArr (map task_entry firsts))
        \<and> requests (snd (list_tasks env None w)) = requests w @ [Get_runs 100]
        \<and> map task_id_of firsts = first_occurrences (filter truthy (map task_id_of runs))
        \<and> distinct (map task_id_of firsts)
        \<and> set (map task_id_of firsts) = {k \<in> task_id_of ` set runs. truthy k}
        \<and> (\<forall>r \<in> set firsts. List.find (\<lambda>r'. task_id_of r' = task_id_of r) runs = Some r)"
    by blast
qed

text \<open>C10 at the concrete answer \<open>sample_runs\<close>: two runs of \<^verbatim>\<open>send-email\<close> and one of
  \<^verbatim>\<open>resize-image\<close> give two entries, the first from the earlier fetched run of
  \<^verbatim>\<open>send-email\<close>.\<close>

lemma sample_runs_api: "list_all api_run sample_runs"
  by (simp add: sample_runs_def run_a_def run_b_def run_c_def api_run_def is_dict_def
      task_id_of_def field_def)

lemma sample_runs_ids:
  "first_occurrences (filter truthy (map task_id_of sample_runs)) = [JStr ''send-email'', JStr ''resize-image'']"
  by (simp add: sample_runs_def run_a_def run_b_def run_c_def task_id_of_def field_def
      first_occurrences_def)

theorem remote_listing_is_first_run_per_task_witness:
  "response_data (http sample_api (Get_runs 100)) = Inr (JArr sample_runs)
   \<and> list_all api_run sample_runs
   \<and> (\<exists>firsts.
        fst (list_tasks sample_api None blank) = Inr (map task_entry firsts)
        \<and> cache_file (snd (list_tasks sample_api None blank)) = Stored (JArr (map task_entry firsts))
        \<and> requests (snd (list_tasks sample_api None blank)) = [Get_runs 100]
        \<and> map task_id_of firsts = [JStr ''send-email'', JStr ''resize-image'']
        \<and> firsts = [run_a, run_c])
   \<and> task_entry run_a
       = JObj [(''id'', JStr ''send-email''), (''status'', JStr ''EXECUTING''), (''updated'', JStr ''2024-05-03'')]"
proof -
  from remote_listing_is_first_run_per_task [of sample_api sample_runs blank]
    sample_api_data sample_runs_api
  obtain firsts where f:
    "fst (list_tasks sample_api None blank) = Inr (map task_entry firsts)"
    "cache_file (snd (list_tasks sample_api None blank)) = Stored (JArr (map task_entry firsts))"
    "requests (snd (list_tasks sample_api None blank)) = requests blank @ [Get_runs 100]"
    "map task_id_of firsts = first_occurrences (filter truthy (map task_id_of sample_runs))"
    "\<forall>r \<in> set firsts. List.find (\<lambda>r'. task_id_of r' = task_id_of r) sample_runs = Some r"
    by blast
  from f(4) have ids: "map task_id_of firsts = [JStr ''send-email'', JStr ''resize-image'']"
    by (simp add: sample_runs_ids)
  then obtain x y where xy: "firsts = [x, y]" "task_id_of x = JStr ''send-email''"
    "task_id_of y = JStr ''resize-image''"
    by (auto simp: map_eq_Cons_conv)
  have "List.find (\<lambda>r'. task_id_of r' = JStr ''send-email'') sample_runs = Some run_a"
    "List.find (\<lambda>r'. task_id_of r' = JStr ''resize-image'') sample_runs = Some run_c"
    by (simp_all add: sample_runs_def run_a_def run_b_def run_c_def task_id_of_def field_def)
  with f(5) xy have "firsts = [run_a, run_c]" by simp
  moreover have "task_entry run_a
       = JObj [(''id'', JStr ''send-email''), (''status'', JStr ''EXECUTING''), (''updated'', JStr ''2024-05-03'')]"
    by (simp add: task_entry_def task_id_of_def field_def date_of_def run_a_def)
  moreover have "requests blank = []" by (simp add: blank_def)
  ultimately show ?thesis
    using f(1,2,3) ids sample_api_data sample_runs_api by simp
qed

section \<open>What an invocation does to the two caches\<close>

text \<open>
  The two cache files of a world, and the effect of a command on them: for each file,
  either it is left as it was or it is overwritten with a list that does not depend on
  the world the command started in.
\<close>

definition caches :: "world \<Rightarrow> file_state \<times> file_state" where
  "caches w = (cache_file w, runs_cache_file w)"

definition overwrite :: "json list option \<Rightarrow> file_state \<Rightarrow> file_state" where
  "overwrite saved f = (case saved of None \<Rightarrow> f | Some l \<Rightarrow> Stored (JArr l))"


lemma overwrite_simps [simp]: "overwrite None f = f" "overwrite (Some l) f = Stored (JArr l)"
  by (simp_all add: overwrite_def)

lemma caches_py_print [simp]: "caches (py_print m w) = caches w"
  by (simp add: caches_def py_print_def)

lemma caches_printed [simp]: "caches (w\<lparr>stdout := out\<rparr>) = caches w"
  by (simp add: caches_def)

lemma caches_requested [simp]: "caches (w\<lparr>requests := rs\<rparr>) = caches w"
  by (simp add: caches_def)

lemma caches_write_cache_file [simp]:
  "caches (write_cache_file tasks w) = (Stored (JArr tasks), snd (caches w))"
  by (simp add: caches_def write_cache_file_def)

lemma caches_write_runs_cache_file [simp]:
  "caches (write_runs_cache_file rs w) = (fst (caches w), Stored (JArr rs))"
  by (simp add: caches_def write_runs_cache_file_def)


lemma show_tasks_prints: "\<exists>ms. snd (show_tasks i ts w) = w\<lparr>stdout := stdout w @ ms\<rparr>"
proof (induction ts arbitrary: i w)
  case Nil
  have "w = w\<lparr>stdout := stdout w @ []\<rparr>" by simp
  then show ?case by (metis show_tasks.simps(1) snd_conv)
next
  case (Cons t ts)
  have same: "w = w\<lparr>stdout := stdout w @ []\<rparr>" by simp
  show ?case
  proof (cases "subscript_str t ''status''")
    case (Inl e)
    then have "snd (show_tasks i (t # ts) w) = w" by simp
    with same show ?thesis by metis
  next
    case status: (Inr status)
    show ?thesis
    proof (cases "subscript_str t ''id''")
      case (Inl e)
      then have "snd (show_tasks i (t # ts) w) = w" using status by simp
      with same show ?thesis by metis
    next
      case (Inr tid)
      let ?m = "Task_line i tid (if status = JStr ''COMPLETED'' then Check_mark else Hourglass)"
      from Cons.IH [of "Suc i" "py_print ?m w"] obtain ms where
        "snd (show_tasks (Suc i) ts (py_print ?m w))
           = (py_print ?m w)\<lparr>stdout := stdout (py_print ?m w) @ ms\<rparr>" ..
      then have "snd (show_tasks i (t # ts) w) = w\<lparr>stdout := stdout w @ (?m # ms)\<rparr>"
        using status Inr by (simp add: py_print_def)
      then show ?thesis ..
    qed
  qed
qed

lemma caches_show_tasks [simp]: "caches (snd (show_tasks i ts w)) = caches w"
  using show_tasks_prints [of i ts w] by auto

lemma caches_show_runs [simp]: "caches (snd (show_runs i rs w)) = caches w"
  using show_runs_prints [of i rs w] by auto





lemma caches_confirm [simp]: "caches (snd (confirm q w)) = caches w"
  by (simp add: confirm_def caches_def split: list.splits key_event.splits)

lemma caches_confirmed: "confirm q w = (go, w1) \<Longrightarrow> caches w1 = caches w"
  using caches_confirm [of q w] by simp

lemma caches_open_url [simp]: "caches (open_url env u w) = caches w"
  by (simp add: open_url_def caches_def py_print_def)

lemma caches_run_task [simp]:
  "caches (snd (run_task env task_id payload auto_open skip_confirm w)) = caches w"
proof -
  obtain go w1 where c: "(if skip_confirm then (True, w) else confirm (Trigger_q task_id) w) = (go, w1)"
    by (cases "if skip_confirm then (True, w) else confirm (Trigger_q task_id) w")
  then have "caches w1 = caches w"
    by (auto split: if_splits dest: caches_confirmed)
  then show ?thesis
    unfolding run_task_def c by (simp add: send_def Let_def split: sum.splits)
qed

lemma caches_cancel_run [simp]: "caches (snd (cancel_run env run_id skip_confirm w)) = caches w"
proof -
  obtain go w1 where c: "(if skip_confirm then (True, w) else confirm (Cancel_q run_id) w) = (go, w1)"
    by (cases "if skip_confirm then (True, w) else confirm (Cancel_q run_id) w")
  then have "caches w1 = caches w"
    by (auto split: if_splits dest: caches_confirmed)
  then show ?thesis
    unfolding cancel_run_def c by (simp add: send_def Let_def split: sum.splits)
qed



lemma snd_discard [simp]: "snd (discard p) = snd p"
  by (simp add: discard_def split: prod.splits sum.splits)










































end
